theory Spec2Isabelle
  imports Main
begin

section \<open>The date primitive\<close>

text \<open>
  Both versions of the server (\<^verbatim>\<open>src/index.js\<close> and \<^verbatim>\<open>src/unnamed/part_000\<close>) compute
  the subscription term with the JavaScript \<^verbatim>\<open>Date\<close> object: \<^verbatim>\<open>new Date()\<close>,
  \<^verbatim>\<open>getMonth\<close>, \<^verbatim>\<open>setMonth\<close>, \<^verbatim>\<open>getFullYear\<close>, \<^verbatim>\<open>setFullYear\<close> and
  \<^verbatim>\<open>toISOString\<close>. A time value is an integer number of milliseconds since the epoch;
  the functions below are the abstract operations of the language standard (section
  "Date Objects") on time values, written over \<open>int\<close>, whose \<open>div\<close> and \<open>mod\<close> are the
  standard's \<open>floor(x / y)\<close> and \<open>x modulo y\<close>.
\<close>

definition ms_per_day :: int where
  "ms_per_day = 86400000"

definition day :: "int \<Rightarrow> int" where
  "day t = t div ms_per_day"

definition time_within_day :: "int \<Rightarrow> int" where
  "time_within_day t = t mod ms_per_day"

definition days_in_year :: "int \<Rightarrow> int" where
  "days_in_year y =
     (if y mod 4 \<noteq> 0 then 365
      else if y mod 100 \<noteq> 0 then 366
      else if y mod 400 \<noteq> 0 then 365
      else 366)"

definition day_from_year :: "int \<Rightarrow> int" where
  "day_from_year y =
     365 * (y - 1970) + (y - 1969) div 4 - (y - 1901) div 100 + (y - 1601) div 400"

definition time_from_year :: "int \<Rightarrow> int" where
  "time_from_year y = ms_per_day * day_from_year y"

text \<open>
  The standard defines \<open>YearFromTime(t)\<close> as the largest \<open>y\<close> with
  \<open>TimeFromYear(y) \<le> t\<close>. The definition computes it from an estimate that is off by at
  most one year; \<open>year_from_time_largest\<close> below proves that it is that largest year.
\<close>

definition year_from_time :: "int \<Rightarrow> int" where
  "year_from_time t =
     (let d = day t; y = 1970 + (400 * d) div 146097
      in if d < day_from_year y then y - 1
         else if day_from_year (y + 1) \<le> d then y + 1
         else y)"

definition leap_of_year :: "int \<Rightarrow> int" where
  "leap_of_year y = (if days_in_year y = 366 then 1 else 0)"

definition in_leap_year :: "int \<Rightarrow> int" where
  "in_leap_year t = leap_of_year (year_from_time t)"

definition day_within_year :: "int \<Rightarrow> int" where
  "day_within_year t = day t - day_from_year (year_from_time t)"

definition month_from_time :: "int \<Rightarrow> int" where
  "month_from_time t =
     (let d = day_within_year t; l = in_leap_year t
      in if d < 31 then 0
         else if d < 59 + l then 1
         else if d < 90 + l then 2
         else if d < 120 + l then 3
         else if d < 151 + l then 4
         else if d < 181 + l then 5
         else if d < 212 + l then 6
         else if d < 243 + l then 7
         else if d < 273 + l then 8
         else if d < 304 + l then 9
         else if d < 334 + l then 10
         else 11)"

definition date_from_time :: "int \<Rightarrow> int" where
  "date_from_time t =
     (let d = day_within_year t; l = in_leap_year t; m = month_from_time t
      in if m = 0 then d + 1
         else if m = 1 then d - 30
         else if m = 2 then d - 58 - l
         else if m = 3 then d - 89 - l
         else if m = 4 then d - 119 - l
         else if m = 5 then d - 150 - l
         else if m = 6 then d - 180 - l
         else if m = 7 then d - 211 - l
         else if m = 8 then d - 242 - l
         else if m = 9 then d - 272 - l
         else if m = 10 then d - 303 - l
         else d - 333 - l)"

definition hour_from_time :: "int \<Rightarrow> int" where
  "hour_from_time t = (t div 3600000) mod 24"

definition min_from_time :: "int \<Rightarrow> int" where
  "min_from_time t = (t div 60000) mod 60"

definition sec_from_time :: "int \<Rightarrow> int" where
  "sec_from_time t = (t div 1000) mod 60"

definition ms_from_time :: "int \<Rightarrow> int" where
  "ms_from_time t = t mod 1000"

text \<open>
  \<open>month_start l m\<close> is the day within the year on which month \<open>m\<close> (0 to 11) begins, in
  a year with leap flag \<open>l\<close>: the lower bounds of the table of \<open>MonthFromTime\<close>.
\<close>

definition month_start :: "int \<Rightarrow> int \<Rightarrow> int" where
  "month_start l m =
     (if m = 0 then 0
      else if m = 1 then 31
      else if m = 2 then 59 + l
      else if m = 3 then 90 + l
      else if m = 4 then 120 + l
      else if m = 5 then 151 + l
      else if m = 6 then 181 + l
      else if m = 7 then 212 + l
      else if m = 8 then 243 + l
      else if m = 9 then 273 + l
      else if m = 10 then 304 + l
      else 334 + l)"

text \<open>
  \<open>MakeDay(year, month, date)\<close>: the month is carried into the year (\<open>ym\<close>, \<open>mn\<close>), the
  day number of the first of that month is found, and \<open>date - 1\<close> is added to it, whatever
  \<open>date\<close> is. This is the rollover rule of \<^verbatim>\<open>setMonth\<close> and \<^verbatim>\<open>setFullYear\<close>: a day of
  the month that the target month does not have runs on into the following month.
\<close>

definition make_day :: "int \<Rightarrow> int \<Rightarrow> int \<Rightarrow> int" where
  "make_day y m dt =
     (let ym = y + m div 12; mn = m mod 12
      in day_from_year ym + month_start (leap_of_year ym) mn + dt - 1)"

text \<open>The number of days of month \<open>m\<close> (0 to 11) of year \<open>y\<close>.\<close>

definition days_in_month :: "int \<Rightarrow> int \<Rightarrow> int" where
  "days_in_month y m =
     (if m = 1 then 28 + leap_of_year y
      else if m = 3 \<or> m = 5 \<or> m = 8 \<or> m = 10 then 30
      else 31)"

text \<open>
  The calendar date that \<open>MakeDay\<close> reaches from year \<open>y\<close>, month number \<open>k\<close> (carried
  into the year) and day of the month \<open>d\<close>, for \<open>d\<close> from 1 to 31: day \<open>d\<close> of that
  month when the month has it, and otherwise the day of the following month that lies
  as many days after the end of the month.
\<close>

definition rollover :: "int \<Rightarrow> int \<Rightarrow> int \<Rightarrow> int \<times> int \<times> int" where
  "rollover y k d =
     (let y1 = y + k div 12; m1 = k mod 12; n = days_in_month y1 m1
      in if d \<le> n then (y1, m1, d)
         else (y1 + (m1 + 1) div 12, (m1 + 1) mod 12, d - n))"

definition make_date :: "int \<Rightarrow> int \<Rightarrow> int" where
  "make_date dy tm = dy * ms_per_day + tm"

text \<open>A date object holds a time value or NaN (an invalid date), here \<open>None\<close>.\<close>

type_synonym date = "int option"

definition time_clip :: "int \<Rightarrow> date" where
  "time_clip t = (if \<bar>t\<bar> > 8640000000000000 then None else Some t)"

text \<open>
  The offset of the server's time zone from UTC is the standard's
  \<open>LocalTZA(t, isUTC)\<close>, which the host supplies; it varies with \<open>t\<close> where there is
  daylight saving time. An offset is less than a day either way (the standard writes one
  with an hour from 00 to 23), and a time zone is a function that keeps that bound.
  \<open>fixed_zone off\<close> is the zone of constant offset \<open>off\<close>.
\<close>

typedef tzone = "{z :: int \<Rightarrow> bool \<Rightarrow> int. \<forall>t k. \<bar>z t k\<bar> < 86400000}"
proof
  show "(\<lambda>t k. 0) \<in> {z :: int \<Rightarrow> bool \<Rightarrow> int. \<forall>t k. \<bar>z t k\<bar> < 86400000}"
    by simp
qed

setup_lifting type_definition_tzone

lift_definition local_tza :: "tzone \<Rightarrow> int \<Rightarrow> bool \<Rightarrow> int" is "\<lambda>z. z" .

lift_definition fixed_zone :: "int \<Rightarrow> tzone" is
  "\<lambda>off t k. if \<bar>off\<bar> < 86400000 then off else 0"
  by simp

definition local_time :: "tzone \<Rightarrow> int \<Rightarrow> int" where
  "local_time tz t = t + local_tza tz t True"

definition utc :: "tzone \<Rightarrow> int \<Rightarrow> int" where
  "utc tz t = t - local_tza tz t False"

text \<open>
  The methods of \<^verbatim>\<open>Date.prototype\<close> that the handlers call. \<open>getMonth\<close> and
  \<open>getFullYear\<close> are called on a valid date only (a copy of \<^verbatim>\<open>new Date()\<close>), so they
  take its time value; \<open>setMonth\<close> and \<open>setFullYear\<close> return the new value of the date.
\<close>

definition getMonth :: "tzone \<Rightarrow> int \<Rightarrow> int" where
  "getMonth tz t = month_from_time (local_time tz t)"

definition getFullYear :: "tzone \<Rightarrow> int \<Rightarrow> int" where
  "getFullYear tz t = year_from_time (local_time tz t)"

definition setMonth :: "tzone \<Rightarrow> int \<Rightarrow> int \<Rightarrow> date" where
  "setMonth tz t m =
     (let lt = local_time tz t;
          newDate = make_date (make_day (year_from_time lt) m (date_from_time lt))
                              (time_within_day lt)
      in time_clip (utc tz newDate))"

definition setFullYear :: "tzone \<Rightarrow> int \<Rightarrow> int \<Rightarrow> date" where
  "setFullYear tz t y =
     (let lt = local_time tz t;
          newDate = make_date (make_day y (month_from_time lt) (date_from_time lt))
                              (time_within_day lt)
      in time_clip (utc tz newDate))"

section \<open>Values, strings and errors\<close>

text \<open>
  A request body is JSON; the handlers read its properties, test them for truthiness and
  put them into template strings. \<open>JUndefined\<close> is the value of a property that is
  absent. A number is modelled by an integer \<open>n\<close>: it is the number that the literal \<open>n\<close>
  denotes, which is \<open>n\<close> itself when \<open>n\<close> is a safe integer (at most \<open>2\<^sup>5\<^sup>3 - 1\<close> in absolute
  value) and the double nearest to \<open>n\<close> otherwise. Strings are lists of 8-bit code units. An
  object is the list of its own properties, one value for each key.
\<close>

datatype json =
    JUndefined
  | JNull
  | JBool bool
  | JNum int
  | JStr string
  | JArr "json list"
  | JObj "(string \<times> json) list"

type_synonym row = "(string \<times> json) list"

text \<open>The body that \<^verbatim>\<open>express.json()\<close> leaves in \<^verbatim>\<open>req.body\<close>: the properties of an object.\<close>

type_synonym body = "(string \<times> json) list"

fun truthy :: "json \<Rightarrow> bool" where
  "truthy JUndefined = False"
| "truthy JNull = False"
| "truthy (JBool b) = b"
| "truthy (JNum n) = (n \<noteq> 0)"
| "truthy (JStr s) = (s \<noteq> [])"
| "truthy (JArr xs) = True"
| "truthy (JObj kvs) = True"

text \<open>
  \<open>prop_of v k\<close> is \<^verbatim>\<open>v.k\<close> for the property names that the handlers read, none of which
  is inherited from a prototype: an object gives its own property, any other value that is
  not \<^verbatim>\<open>null\<close> or \<^verbatim>\<open>undefined\<close> gives \<^verbatim>\<open>undefined\<close>. The handlers read \<^verbatim>\<open>v.k\<close> only
  where \<open>v\<close> is truthy. \<open>opt_prop v k\<close> is \<^verbatim>\<open>v?.k\<close>.
\<close>

fun prop_of :: "json \<Rightarrow> string \<Rightarrow> json" where
  "prop_of (JObj kvs) k = (case map_of kvs k of None \<Rightarrow> JUndefined | Some v \<Rightarrow> v)"
| "prop_of v k = JUndefined"

definition opt_prop :: "json \<Rightarrow> string \<Rightarrow> json" where
  "opt_prop v k = (if v = JUndefined \<or> v = JNull then JUndefined else prop_of v k)"

text \<open>\<open>or_else a b\<close> is \<^verbatim>\<open>a || b\<close>.\<close>

definition or_else :: "json \<Rightarrow> json \<Rightarrow> json" where
  "or_else a b = (if truthy a then a else b)"

definition digit :: "int \<Rightarrow> char" where
  "digit n = ''0123456789'' ! nat (n mod 10)"

text \<open>The decimal digits of a number that is not negative.\<close>

function show_digits :: "int \<Rightarrow> string" where
  "show_digits n = (if n < 10 then [digit n] else show_digits (n div 10) @ [digit n])"
  by pat_completeness auto
termination
  by (relation "measure nat") auto

declare show_digits.simps [simp del]

definition show_int :: "int \<Rightarrow> string" where
  "show_int i = (if i < 0 then CHR ''-'' # show_digits (- i) else show_digits i)"

text \<open>\<open>pad k n\<close>: the last \<open>k\<close> decimal digits of \<open>n\<close>, with leading zeros.\<close>

fun pad :: "nat \<Rightarrow> int \<Rightarrow> string" where
  "pad 0 n = []"
| "pad (Suc k) n = pad k (n div 10) @ [digit n]"

text \<open>
  \<open>to_string f v\<close> is the conversion of \<open>v\<close> to a string in a template literal, in a
  concatenation with a string or as the subject of a regular expression. It throws a
  \<^verbatim>\<open>TypeError\<close> (\<open>None\<close>) on an object that has an own property \<^verbatim>\<open>toString\<close>: a value parsed
  from JSON is never callable, and \<^verbatim>\<open>Object.prototype.valueOf\<close> returns the object, so no
  primitive is found. An array is joined with commas, \<^verbatim>\<open>null\<close> and \<^verbatim>\<open>undefined\<close> elements
  giving the empty string.

  A safe integer is printed in decimal. Any other number is printed by the engine with the
  fewest digits that read back as the same double, in exponent notation from \<open>10\<^sup>2\<^sup>1\<close> on
  (\<^verbatim>\<open>1152921504606847000\<close> for \<open>2\<^sup>6\<^sup>0\<close>, \<^verbatim>\<open>1.5e+21\<close>); that text is taken from the host, as
  the function \<open>f\<close> of the literal.
\<close>

fun join_strings :: "string option list \<Rightarrow> string option" where
  "join_strings [] = Some []"
| "join_strings [x] = x"
| "join_strings (x # y # ys) =
     (case x of
        None \<Rightarrow> None
      | Some s \<Rightarrow> (case join_strings (y # ys) of
                     None \<Rightarrow> None
                   | Some r \<Rightarrow> Some (s @ '','' @ r)))"

fun to_string :: "(int \<Rightarrow> string) \<Rightarrow> json \<Rightarrow> string option" where
  "to_string f JUndefined = Some ''undefined''"
| "to_string f JNull = Some ''null''"
| "to_string f (JBool b) = Some (if b then ''true'' else ''false'')"
| "to_string f (JNum n) =
     Some (if - 9007199254740991 \<le> n \<and> n \<le> 9007199254740991 then show_int n else f n)"
| "to_string f (JStr s) = Some s"
| "to_string f (JArr xs) =
     join_strings (map (\<lambda>x. if x = JUndefined \<or> x = JNull then Some [] else to_string f x) xs)"
| "to_string f (JObj kvs) =
     (if ''toString'' \<in> set (map fst kvs) then None else Some ''[object Object]'')"

text \<open>White space and line terminators among the 8-bit code units.\<close>

definition is_space :: "char \<Rightarrow> bool" where
  "is_space c = (c \<in> set [CHR 0x09, CHR 0x0A, CHR 0x0B, CHR 0x0C, CHR 0x0D, CHR 0x20, CHR 0xA0])"

definition trim :: "string \<Rightarrow> string" where
  "trim s = rev (dropWhile is_space (rev (dropWhile is_space s)))"

text \<open>
  An error object: its name and its message. The two errors that the language itself
  throws in the handlers carry the messages of the V8 engine.
\<close>

datatype js_error = JsError (err_name: string) (err_message: string)

definition range_error :: js_error where
  "range_error = JsError ''RangeError'' ''Invalid time value''"

definition type_error :: js_error where
  "type_error = JsError ''TypeError'' ''Cannot convert object to primitive value''"

text \<open>
  \<^verbatim>\<open>toISOString\<close> throws a \<^verbatim>\<open>RangeError\<close> (\<open>None\<close>) on an invalid date; otherwise it
  prints the UTC fields, the year with four digits from 0 to 9999 and with a sign and six
  digits outside.
\<close>

definition year_string :: "int \<Rightarrow> string" where
  "year_string y =
     (if 0 \<le> y \<and> y \<le> 9999 then pad 4 y
      else if y < 0 then CHR ''-'' # pad 6 (- y)
      else CHR ''+'' # pad 6 y)"

definition iso_string :: "int \<Rightarrow> string" where
  "iso_string t =
     year_string (year_from_time t) @ ''-'' @ pad 2 (month_from_time t + 1) @ ''-''
       @ pad 2 (date_from_time t) @ ''T'' @ pad 2 (hour_from_time t) @ '':''
       @ pad 2 (min_from_time t) @ '':'' @ pad 2 (sec_from_time t) @ ''.''
       @ pad 3 (ms_from_time t) @ ''Z''"

definition toISOString :: "date \<Rightarrow> string option" where
  "toISOString d = (case d of None \<Rightarrow> None | Some t \<Rightarrow> Some (iso_string t))"

section \<open>The email pattern\<close>

text \<open>
  \<^verbatim>\<open>index.js\<close> tests the email of a contact request against
  \<^verbatim>\<open>/^[^\s@]+@[^\s@]+\.[^\s@]+$/\<close>. The pattern has no look-around and no
  back-reference, and is anchored at both ends, so \<^verbatim>\<open>test\<close> decides whether the whole
  string is in the language of the regular expression; \<open>matches\<close> decides it with
  derivatives.
\<close>

datatype rx =
    RNone
  | REmpty
  | RClass "char \<Rightarrow> bool"
  | RSeq rx rx
  | RAlt rx rx
  | RStar rx

definition RPlus :: "rx \<Rightarrow> rx" where
  "RPlus r = RSeq r (RStar r)"

fun nullable :: "rx \<Rightarrow> bool" where
  "nullable RNone = False"
| "nullable REmpty = True"
| "nullable (RClass p) = False"
| "nullable (RSeq r s) = (nullable r \<and> nullable s)"
| "nullable (RAlt r s) = (nullable r \<or> nullable s)"
| "nullable (RStar r) = True"

fun deriv :: "char \<Rightarrow> rx \<Rightarrow> rx" where
  "deriv c RNone = RNone"
| "deriv c REmpty = RNone"
| "deriv c (RClass p) = (if p c then REmpty else RNone)"
| "deriv c (RSeq r s) =
     (if nullable r then RAlt (RSeq (deriv c r) s) (deriv c s) else RSeq (deriv c r) s)"
| "deriv c (RAlt r s) = RAlt (deriv c r) (deriv c s)"
| "deriv c (RStar r) = RSeq (deriv c r) (RStar r)"

fun matches :: "rx \<Rightarrow> string \<Rightarrow> bool" where
  "matches r [] = nullable r"
| "matches r (c # cs) = matches (deriv c r) cs"

definition not_space_or_at :: "char \<Rightarrow> bool" where
  "not_space_or_at c = (\<not> is_space c \<and> c \<noteq> CHR ''@'')"

definition emailRegex :: rx where
  "emailRegex =
     RSeq (RPlus (RClass not_space_or_at))
       (RSeq (RClass (\<lambda>c. c = CHR ''@''))
         (RSeq (RPlus (RClass not_space_or_at))
           (RSeq (RClass (\<lambda>c. c = CHR ''.''))
             (RPlus (RClass not_space_or_at)))))"

text \<open>
  The language of a pattern, against which \<open>matches\<close> is checked below
  (\<open>matches_lang\<close>); \<open>repeats A\<close> holds of the concatenations of strings of \<open>A\<close>.
\<close>

inductive repeats :: "string set \<Rightarrow> string \<Rightarrow> bool" for A :: "string set" where
  none: "repeats A []"
| more: "u \<in> A \<Longrightarrow> repeats A v \<Longrightarrow> repeats A (u @ v)"

fun lang :: "rx \<Rightarrow> string set" where
  "lang RNone = {}"
| "lang REmpty = {[]}"
| "lang (RClass p) = {w. \<exists>c. w = [c] \<and> p c}"
| "lang (RSeq r s) = {w. \<exists>u v. w = u @ v \<and> u \<in> lang r \<and> v \<in> lang s}"
| "lang (RAlt r s) = lang r \<union> lang s"
| "lang (RStar r) = {w. repeats (lang r) w}"

section \<open>The database client and the host\<close>

text \<open>
  The handlers reach the database through the Supabase client only, with two kinds of
  call: a select of some columns of a table in an order, and an insert of one row into a
  table. An awaited call gives data, or gives an error object, or throws. The client is
  outside the repository: it is a parameter of every handler.
\<close>

datatype db_op =
    Select string string string bool
  | Insert string row

datatype db_reply =
    Data json
  | ErrorReturned js_error
  | ErrorThrown js_error

type_synonym client = "db_op \<Rightarrow> db_reply"

text \<open>
  What a handler reads from its host: the clock (\<open>clock env n\<close> is the \<open>n\<close>-th reading
  during the request), the time zone, the value of \<^verbatim>\<open>crypto.randomUUID()\<close>, the string
  \<^verbatim>\<open>Math.random().toString(36)\<close>, and the text that the engine gives to a number that is
  not a safe integer.
\<close>

record env =
  clock :: "nat \<Rightarrow> int"
  tz :: tzone
  uuid :: string
  random36 :: string
  number_text :: "int \<Rightarrow> string"

record response =
  status :: nat
  body :: json

text \<open>
  The result of a handler: the response sent, the database calls issued, in order, and the
  lines written with \<^verbatim>\<open>console.error\<close> (a label and the error objects printed).
\<close>

record result =
  response :: response
  calls :: "db_op list"
  logs :: "(string \<times> js_error list) list"

definition send :: "nat \<Rightarrow> json \<Rightarrow> db_op list \<Rightarrow> (string \<times> js_error list) list \<Rightarrow> result" where
  "send st b cs ls = \<lparr>response = \<lparr>status = st, body = b\<rparr>, calls = cs, logs = ls\<rparr>"

text \<open>
  The rows that a request has left in the database: those of its inserts that the client
  reported as done. Neither version issues a call that removes a row.
\<close>

definition accepted :: "db_reply \<Rightarrow> bool" where
  "accepted r = (case r of Data d \<Rightarrow> True | ErrorReturned e \<Rightarrow> False | ErrorThrown e \<Rightarrow> False)"

fun persisted :: "client \<Rightarrow> db_op list \<Rightarrow> (string \<times> row) list" where
  "persisted db [] = []"
| "persisted db (Select t c k a # ops) = persisted db ops"
| "persisted db (Insert t r # ops) =
     (if accepted (db (Insert t r)) then (t, r) # persisted db ops else persisted db ops)"

text \<open>
  A template literal: the pieces are converted in order, and the first conversion that
  throws ends the evaluation.
\<close>

fun template :: "string option list \<Rightarrow> string option" where
  "template [] = Some []"
| "template (None # ps) = None"
| "template (Some s # ps) = (case template ps of None \<Rightarrow> None | Some r \<Rightarrow> Some (s @ r))"

definition newline :: string where
  "newline = [CHR 0x0A]"

section \<open>The handlers of \<^verbatim>\<open>src/index.js\<close>\<close>

text \<open>\<^verbatim>\<open>GET /plans\<close>, lines 47 to 63.\<close>

definition plans_A :: "client \<Rightarrow> env \<Rightarrow> result" where
  "plans_A db e =
     (let q = Select ''plans'' ''id, name, price, features'' ''price'' True
      in case db q of
           ErrorThrown err \<Rightarrow>
             send 500 (JObj [(''error'', JStr (err_message err))]) [q] []
         | ErrorReturned error \<Rightarrow>
             send 500 (JObj [(''error'', JStr ''Could not fetch plans.'')]) [q]
               [(''Error fetching plans:'', [error])]
         | Data d \<Rightarrow>
             send 200 (JObj [(''success'', JBool True), (''plans'', d)]) [q] [])"

text \<open>\<^verbatim>\<open>GET /health\<close>, lines 66 to 71. \<^verbatim>\<open>new Date()\<close> is a valid date.\<close>

definition health_A :: "client \<Rightarrow> env \<Rightarrow> result" where
  "health_A db e =
     send 200 (JObj [(''status'', JStr ''OK''),
                     (''server_time'', JStr (iso_string (clock e 0)))]) [] []"

text \<open>\<^verbatim>\<open>POST /contact\<close>, lines 74 to 138.\<close>

definition contact_A_caught :: "js_error \<Rightarrow> db_op list \<Rightarrow> result" where
  "contact_A_caught err cs =
     send 500 (JObj [(''success'', JBool False),
                     (''error'', JStr ''Server error processing contact form'')]) cs
       [(''Contact form error:'', [err])]"

text \<open>
  The row of the insert, lines 101 to 107; \<open>None\<close> when a conversion to a string throws.
\<close>

definition contact_message_A ::
  "(int \<Rightarrow> string) \<Rightarrow> string \<Rightarrow> json \<Rightarrow> json \<Rightarrow> json \<Rightarrow> string \<Rightarrow> row option" where
  "contact_message_A f userId name email message created_at =
     (case template [Some ''Contact Form: '', to_string f name] of
        None \<Rightarrow> None
      | Some subject \<Rightarrow>
          (case template [Some ''Name: '', to_string f name, Some newline,
                          Some ''Email: '', to_string f email, Some newline,
                          Some newline, Some ''Message:'', Some newline,
                          to_string f message] of
             None \<Rightarrow> None
           | Some text \<Rightarrow>
               Some [(''user_id'', JStr userId), (''subject'', JStr subject),
                     (''message'', JStr text), (''type'', JStr ''contact_form''),
                     (''created_at'', JStr created_at)]))"

definition contact_A :: "client \<Rightarrow> env \<Rightarrow> body \<Rightarrow> result" where
  "contact_A db e b =
     (let name = prop_of (JObj b) ''name'';
          email = prop_of (JObj b) ''email'';
          message = prop_of (JObj b) ''message''
      in if \<not> truthy name \<or> \<not> truthy email \<or> \<not> truthy message
         then send 400 (JObj [(''success'', JBool False),
                 (''error'', JStr ''All fields are required: name, email, message'')]) [] []
         else
           (case to_string (number_text e) email of
              None \<Rightarrow> contact_A_caught type_error []
            | Some email_text \<Rightarrow>
                if \<not> matches emailRegex email_text
                then send 400 (JObj [(''success'', JBool False),
                        (''error'', JStr ''Invalid email format'')]) [] []
                else
                  (let userId = ''contact_'' @ show_int (clock e 0) @ ''_''
                                  @ take 9 (drop 2 (random36 e))
                   in case contact_message_A (number_text e) userId name email message
                             (iso_string (clock e 1)) of
                        None \<Rightarrow> contact_A_caught type_error []
                      | Some message_row \<Rightarrow>
                          (let q = Insert ''messages'' message_row
                           in case db q of
                                ErrorThrown err \<Rightarrow> contact_A_caught err [q]
                              | ErrorReturned dbError \<Rightarrow>
                                  send 500 (JObj [(''success'', JBool False),
                                     (''error'',
                                      JStr ''Failed to save contact message to database'')])
                                    [q] [(''Database error saving contact form:'', [dbError])]
                              | Data d \<Rightarrow>
                                  send 200 (JObj [(''success'', JBool True),
                                     (''message'', JStr ''Contact message received successfully''),
                                     (''data'', JObj [(''name'', name), (''email'', email),
                                        (''messageId'', JStr userId),
                                        (''timestamp'', JStr (iso_string (clock e 2)))])])
                                    [q] []))))"

text \<open>
  \<^verbatim>\<open>POST /subscribe\<close>, lines 141 to 184. Lines 149 to 155 compute the term: the start date
  is the reading of the clock, the end date a copy of it moved by the plan.
\<close>

definition subscription_term_A :: "tzone \<Rightarrow> json \<Rightarrow> int \<Rightarrow> int \<times> date" where
  "subscription_term_A z plan_id now =
     (let startDate = now
      in (startDate,
          if plan_id = JStr ''monthly'' then setMonth z startDate (getMonth z startDate + 1)
          else if plan_id = JStr ''2months'' then setMonth z startDate (getMonth z startDate + 2)
          else if plan_id = JStr ''annual''
            then setFullYear z startDate (getFullYear z startDate + 1)
          else setMonth z startDate (getMonth z startDate + 1)))"

definition subscribe_A_caught :: "js_error \<Rightarrow> db_op list \<Rightarrow> result" where
  "subscribe_A_caught err cs =
     send 500 (JObj [(''error'', JStr (err_message err))]) cs [(''Server Error:'', [err])]"

definition returned_error :: "db_reply \<Rightarrow> js_error list" where
  "returned_error r =
     (case r of Data d \<Rightarrow> [] | ErrorReturned err \<Rightarrow> [err] | ErrorThrown err \<Rightarrow> [])"

text \<open>
  The row of the second insert, lines 165 to 169; \<open>None\<close> when a conversion to a string
  throws.
\<close>

definition subscription_message_A ::
  "(int \<Rightarrow> string) \<Rightarrow> json \<Rightarrow> json \<Rightarrow> json \<Rightarrow> json \<Rightarrow> row option" where
  "subscription_message_A f user_id plan_id payment_method customer_info =
     (case template [Some ''New IPTV Subscription - '',
                     to_string f (prop_of customer_info ''email'')] of
        None \<Rightarrow> None
      | Some subject \<Rightarrow>
          (case template [Some ''Name: '', to_string f (prop_of customer_info ''fullname''),
                          Some newline, Some ''Email: '',
                          to_string f (prop_of customer_info ''email''),
                          Some newline, Some ''Phone: '',
                          to_string f (or_else (prop_of customer_info ''phone'') (JStr ''N/A'')),
                          Some newline, Some ''Plan: '', to_string f plan_id,
                          Some newline, Some ''Payment: '', to_string f payment_method] of
             None \<Rightarrow> None
           | Some text \<Rightarrow>
               Some [(''user_id'', user_id), (''subject'', JStr subject),
                     (''message'', JStr text)]))"

text \<open>
  Lines 157 to 179: the two inserts, one after the other, and the response. The row of
  the second insert is computed after the first call has come back.
\<close>

definition subscribe_A_store :: "client \<Rightarrow> row \<Rightarrow> row option \<Rightarrow> result" where
  "subscribe_A_store db subscription_row message_row =
     (let sub = Insert ''subscriptions'' subscription_row
      in case db sub of
           ErrorThrown err \<Rightarrow> subscribe_A_caught err [sub]
         | subReply \<Rightarrow>
             (case message_row of
                None \<Rightarrow> subscribe_A_caught type_error [sub]
              | Some m \<Rightarrow>
                  (let msg = Insert ''messages'' m
                   in case db msg of
                        ErrorThrown err \<Rightarrow> subscribe_A_caught err [sub, msg]
                      | msgReply \<Rightarrow>
                          if returned_error subReply @ returned_error msgReply \<noteq> []
                          then send 500
                                 (JObj [(''error'', JStr ''Failed to save data to database.'')])
                                 [sub, msg]
                                 [(''DB Error:'',
                                   returned_error subReply @ returned_error msgReply)]
                          else send 200 (JObj [(''success'', JBool True),
                                               (''saved_to_db'', JBool True)])
                                 [sub, msg] [])))"

definition subscribe_A :: "client \<Rightarrow> env \<Rightarrow> body \<Rightarrow> result" where
  "subscribe_A db e b =
     (let user_id = prop_of (JObj b) ''user_id'';
          plan_id = prop_of (JObj b) ''plan_id'';
          payment_method = prop_of (JObj b) ''payment_method'';
          customer_info = prop_of (JObj b) ''customer_info''
      in if \<not> truthy customer_info
         then send 400 (JObj [(''error'', JStr ''Customer info missing'')]) [] []
         else
           (case subscription_term_A (tz e) plan_id (clock e 0) of
              (startDate, endDate) \<Rightarrow>
                (case toISOString endDate of
                   None \<Rightarrow> subscribe_A_caught range_error []
                 | Some end_text \<Rightarrow>
                     subscribe_A_store db
                       [(''user_id'', user_id),
                        (''plan_id'', plan_id),
                        (''start_date'', JStr (iso_string startDate)),
                        (''end_date'', JStr end_text),
                        (''status'', JStr ''active'')]
                       (subscription_message_A (number_text e) user_id plan_id
                          payment_method customer_info))))"


section \<open>The handlers of \<^verbatim>\<open>src/unnamed/part_000\<close>\<close>

text \<open>\<^verbatim>\<open>GET /health\<close>, lines 47 to 49.\<close>

definition health_B :: "client \<Rightarrow> env \<Rightarrow> result" where
  "health_B db e =
     send 200 (JObj [(''status'', JStr ''OK''),
                     (''server_time'', JStr (iso_string (clock e 0)))]) [] []"

text \<open>\<^verbatim>\<open>GET /plans\<close>, lines 52 to 66: a returned error is thrown to the catch block.\<close>

definition plans_B_caught :: "js_error \<Rightarrow> db_op list \<Rightarrow> result" where
  "plans_B_caught err cs =
     send 500 (JObj [(''success'', JBool False), (''error'', JStr ''Unable to fetch plans'')]) cs
       [(''Plans fetch error:'', [err])]"

definition plans_B :: "client \<Rightarrow> env \<Rightarrow> result" where
  "plans_B db e =
     (let q = Select ''plans'' ''id, name, price, features'' ''price'' True
      in case db q of
           ErrorThrown err \<Rightarrow> plans_B_caught err [q]
         | ErrorReturned error \<Rightarrow> plans_B_caught error [q]
         | Data d \<Rightarrow>
             send 200 (JObj [(''success'', JBool True), (''plans'', d)]) [q] [])"

text \<open>
  \<^verbatim>\<open>POST /subscribe\<close>, lines 69 to 145. Lines 80 to 98 compute the term; the default case
  of the switch leaves the handler with a 400, here \<open>None\<close>.
\<close>

definition subscription_term_B :: "tzone \<Rightarrow> json \<Rightarrow> int \<Rightarrow> (int \<times> date) option" where
  "subscription_term_B z plan_id now =
     (let startDate = now
      in if plan_id = JStr ''monthly''
           then Some (startDate, setMonth z startDate (getMonth z startDate + 1))
         else if plan_id = JStr ''2months''
           then Some (startDate, setMonth z startDate (getMonth z startDate + 2))
         else if plan_id = JStr ''annual''
           then Some (startDate, setFullYear z startDate (getFullYear z startDate + 1))
         else None)"

definition subscribe_B_caught :: "js_error \<Rightarrow> db_op list \<Rightarrow> result" where
  "subscribe_B_caught err cs =
     send 500 (JObj [(''success'', JBool False), (''error'', JStr ''Subscription failed'')]) cs
       [(''Subscribe error:'', [err])]"

text \<open>
  The row of the second insert, lines 116 to 125; \<open>None\<close> when a conversion to a string
  throws.
\<close>

definition subscription_message_B ::
  "(int \<Rightarrow> string) \<Rightarrow> json \<Rightarrow> json \<Rightarrow> json \<Rightarrow> row option" where
  "subscription_message_B f user_id plan_id customer_info =
     (case template [Some newline, Some ''Name: '',
                     to_string f (prop_of customer_info ''fullname''),
                     Some newline, Some ''Email: '',
                     to_string f (prop_of customer_info ''email''),
                     Some newline, Some ''Phone: '',
                     to_string f (or_else (prop_of customer_info ''phone'') (JStr ''N/A'')),
                     Some newline, Some ''Plan: '', to_string f plan_id,
                     Some newline, Some ''        ''] of
        None \<Rightarrow> None
      | Some text \<Rightarrow>
          Some [(''user_id'', user_id), (''subject'', JStr ''New IPTV Subscription''),
                (''message'', JStr (trim text))])"

text \<open>
  Lines 102 to 136: the two inserts, the second only after the first has succeeded, and
  the response, which repeats the plan and the two dates.
\<close>

definition subscribe_B_store :: "client \<Rightarrow> row \<Rightarrow> row option \<Rightarrow> json \<Rightarrow> result" where
  "subscribe_B_store db subscription_row message_row subscription =
     (let sub = Insert ''subscriptions'' subscription_row
      in case db sub of
           ErrorThrown err \<Rightarrow> subscribe_B_caught err [sub]
         | ErrorReturned subError \<Rightarrow> subscribe_B_caught subError [sub]
         | Data d \<Rightarrow>
             (case message_row of
                None \<Rightarrow> subscribe_B_caught type_error [sub]
              | Some m \<Rightarrow>
                  (let msg = Insert ''messages'' m
                   in case db msg of
                        ErrorThrown err \<Rightarrow> subscribe_B_caught err [sub, msg]
                      | ErrorReturned msgError \<Rightarrow> subscribe_B_caught msgError [sub, msg]
                      | Data d' \<Rightarrow>
                          send 200 (JObj [(''success'', JBool True),
                                          (''subscription'', subscription)])
                            [sub, msg] [])))"

definition subscribe_B :: "client \<Rightarrow> env \<Rightarrow> body \<Rightarrow> result" where
  "subscribe_B db e b =
     (let plan_id = prop_of (JObj b) ''plan_id'';
          customer_info = prop_of (JObj b) ''customer_info''
      in if \<not> truthy plan_id \<or> \<not> truthy (opt_prop customer_info ''fullname'')
              \<or> \<not> truthy (opt_prop customer_info ''email'')
         then send 400 (JObj [(''success'', JBool False),
                 (''error'', JStr ''Missing required fields'')]) [] []
         else
           (case subscription_term_B (tz e) plan_id (clock e 0) of
              None \<Rightarrow>
                send 400 (JObj [(''success'', JBool False), (''error'', JStr ''Invalid plan'')])
                  [] []
            | Some (startDate, endDate) \<Rightarrow>
                (let user_id = JStr (uuid e)
                 in case toISOString endDate of
                      None \<Rightarrow> subscribe_B_caught range_error []
                    | Some end_text \<Rightarrow>
                        subscribe_B_store db
                          [(''user_id'', user_id),
                           (''plan_id'', plan_id),
                           (''start_date'', JStr (iso_string startDate)),
                           (''end_date'', JStr end_text),
                           (''status'', JStr ''active'')]
                          (subscription_message_B (number_text e) user_id plan_id
                             customer_info)
                          (JObj [(''plan'', plan_id),
                                 (''start_date'', JStr (iso_string startDate)),
                                 (''end_date'', JStr end_text)]))))"

text \<open>\<^verbatim>\<open>POST /contact\<close>, lines 148 to 174.\<close>

definition contact_B_caught :: "js_error \<Rightarrow> db_op list \<Rightarrow> result" where
  "contact_B_caught err cs =
     send 500 (JObj [(''success'', JBool False), (''error'', JStr ''Unable to send message'')]) cs
       [(''Contact error:'', [err])]"

definition contact_B :: "client \<Rightarrow> env \<Rightarrow> body \<Rightarrow> result" where
  "contact_B db e b =
     (let name = prop_of (JObj b) ''name'';
          email = prop_of (JObj b) ''email'';
          message = prop_of (JObj b) ''message''
      in if \<not> truthy name \<or> \<not> truthy email \<or> \<not> truthy message
         then send 400 (JObj [(''success'', JBool False), (''error'', JStr ''Missing fields'')])
                [] []
         else
           (let q = Insert ''contact_messages''
                      [(''name'', name), (''email'', email), (''message'', message)]
            in case db q of
                 ErrorThrown err \<Rightarrow> contact_B_caught err [q]
               | ErrorReturned error \<Rightarrow> contact_B_caught error [q]
               | Data d \<Rightarrow> send 200 (JObj [(''success'', JBool True)]) [q] []))"

section \<open>Test doubles and example requests\<close>

text \<open>
  The text of a number in the V8 engine, for the example host. The literal \<open>n\<close> is read as
  the double nearest to it, a tie going to the even significand and a value from
  \<open>2\<^sup>1\<^sup>0\<^sup>2\<^sup>4 - 2\<^sup>9\<^sup>7\<^sup>0\<close> on to \<^verbatim>\<open>Infinity\<close>. The double \<open>x\<close> is printed with the digits \<open>s\<close>, the
  fewest possible (\<open>k\<close> of them), for which \<open>s \<times> 10\<^sup>n\<^sup>-\<^sup>k\<close> reads back as \<open>x\<close>, the closest to \<open>x\<close>
  when several do: followed by \<open>n - k\<close> zeros when \<open>n \<le> 21\<close>, and in exponent notation
  otherwise.
\<close>

function bit_length :: "int \<Rightarrow> nat" where
  "bit_length n = (if n < 2 then 1 else Suc (bit_length (n div 2)))"
  by pat_completeness auto
termination
  by (relation "measure nat") auto

declare bit_length.simps [simp del]

definition nearest_double :: "int \<Rightarrow> int" where
  "nearest_double n =
     (let k = bit_length n
      in if k \<le> 53 then n
         else (let p = 2 ^ (k - 53); q = n div p; r = n mod p
               in (if p < 2 * r \<or> (2 * r = p \<and> odd q) then q + 1 else q) * p))"

definition candidates :: "int \<Rightarrow> nat \<Rightarrow> nat \<Rightarrow> (nat \<times> int) list" where
  "candidates x n k =
     (if n < k then []
      else map (\<lambda>s. (n, s))
             (filter (\<lambda>s. 10 ^ (k - 1) \<le> s \<and> s < 10 ^ k
                           \<and> nearest_double (s * 10 ^ (n - k)) = x)
                [x div 10 ^ (n - k), x div 10 ^ (n - k) + 1]))"

definition distance :: "int \<Rightarrow> nat \<Rightarrow> nat \<times> int \<Rightarrow> int" where
  "distance x k c = \<bar>snd c * 10 ^ (fst c - k) - x\<bar>"

definition closer :: "int \<Rightarrow> nat \<Rightarrow> nat \<times> int \<Rightarrow> nat \<times> int \<Rightarrow> nat \<times> int" where
  "closer x k a b =
     (if distance x k b < distance x k a \<or> (distance x k b = distance x k a \<and> even (snd b))
      then b else a)"

text \<open>
  \<open>shortest x d k fuel\<close> tries \<open>k\<close>, \<open>k + 1\<close>, ... digits, for a double \<open>x\<close> of \<open>d\<close> decimal
  digits; \<open>d\<close> digits always do.
\<close>

fun shortest :: "int \<Rightarrow> nat \<Rightarrow> nat \<Rightarrow> nat \<Rightarrow> nat \<times> nat \<times> int" where
  "shortest x d k 0 = (d, d, x)"
| "shortest x d k (Suc fuel) =
     (case candidates x d k @ candidates x (Suc d) k of
        [] \<Rightarrow> shortest x d (Suc k) fuel
      | c # cs \<Rightarrow> (case foldl (closer x k) c cs of (n, s) \<Rightarrow> (n, k, s)))"

definition double_text :: "int \<Rightarrow> string" where
  "double_text x =
     (if 2 ^ 1024 \<le> x then ''Infinity''
      else (let d = length (show_digits x)
            in case shortest x d 1 d of
                 (n, k, s) \<Rightarrow>
                   if n \<le> 21 then show_digits s @ replicate (n - k) CHR ''0''
                   else (if k = 1 then show_digits s
                         else hd (show_digits s) # CHR ''.'' # tl (show_digits s))
                        @ ''e+'' @ show_digits (int n - 1)))"

definition number_to_string :: "int \<Rightarrow> string" where
  "number_to_string n =
     (if n < 0 then CHR ''-'' # double_text (nearest_double (- n))
      else double_text (nearest_double n))"

text \<open>
  A host whose clock reads 2024-01-31T00:00:00.000Z, one hour east of UTC; a client that
  accepts every call, one that returns an error for every insert into one table, one that
  returns an error for every call, as the Supabase client does when the database cannot
  be reached, and one whose every call throws; some request bodies, and the subscription
  rows that the versions write for the first of them.
\<close>

definition example_env :: env where
  "example_env =
     \<lparr>clock = (\<lambda>n. 1706659200000), tz = fixed_zone 3600000,
      uuid = ''3b241101-e2bb-4255-8caf-4136c566a962'', random36 = ''0.4fzyo82mvyr'',
      number_text = number_to_string\<rparr>"

definition db_ok :: client where
  "db_ok = (\<lambda>q. Data JNull)"

definition failing_table :: "string \<Rightarrow> client" where
  "failing_table t q =
     (case q of
        Select t' c k a \<Rightarrow> Data JNull
      | Insert t' r \<Rightarrow>
          if t' = t then ErrorReturned (JsError ''PostgrestError'' ''insert failed'')
          else Data JNull)"



definition example_request :: body where
  "example_request =
     [(''plan_id'', JStr ''monthly''),
      (''customer_info'', JObj [(''fullname'', JStr ''A''), (''email'', JStr ''a@b.com'')])]"

definition example_row_A :: row where
  "example_row_A =
     [(''user_id'', JUndefined), (''plan_id'', JStr ''monthly''),
      (''start_date'', JStr ''2024-01-31T00:00:00.000Z''),
      (''end_date'', JStr ''2024-03-02T00:00:00.000Z''),
      (''status'', JStr ''active'')]"

definition example_row_B :: row where
  "example_row_B =
     [(''user_id'', JStr ''3b241101-e2bb-4255-8caf-4136c566a962''), (''plan_id'', JStr ''monthly''),
      (''start_date'', JStr ''2024-01-31T00:00:00.000Z''),
      (''end_date'', JStr ''2024-03-02T00:00:00.000Z''),
      (''status'', JStr ''active'')]"

definition weekly_request :: body where
  "weekly_request =
     [(''plan_id'', JStr ''weekly''),
      (''customer_info'', JObj [(''fullname'', JStr ''A''), (''email'', JStr ''a@b.com'')])]"

definition contact_request :: body where
  "contact_request =
     [(''name'', JStr ''N''), (''email'', JStr ''not-an-email''), (''message'', JStr ''hi'')]"




text \<open>
  Two hosts whose clocks read 2023-12-31T23:30:00.000Z, one on UTC and one fourteen hours
  east of it, and a request for the plan of two months.
\<close>

definition utc_env :: env where
  "utc_env = example_env\<lparr>clock := (\<lambda>n. 1704065400000), tz := fixed_zone 0\<rparr>"

definition east_env :: env where
  "east_env = example_env\<lparr>clock := (\<lambda>n. 1704065400000), tz := fixed_zone 50400000\<rparr>"

definition two_months_request :: body where
  "two_months_request =
     [(''plan_id'', JStr ''2months''),
      (''customer_info'', JObj [(''fullname'', JStr ''A''), (''email'', JStr ''a@b.com'')])]"

section \<open>Properties of the date primitive\<close>

lemma div_bounds:
  fixes a k :: int
  assumes "0 < k"
  shows "k * (a div k) \<le> a" and "a < k * (a div k) + k"
proof -
  have "a = k * (a div k) + a mod k" by simp
  moreover have "0 \<le> a mod k" "a mod k < k" using assms by simp_all
  ultimately show "k * (a div k) \<le> a" and "a < k * (a div k) + k" by linarith+
qed

lemma div_step:
  fixes a k :: int
  assumes "0 < k"
  shows "(a + 1) div k = a div k + (if (a + 1) mod k = 0 then 1 else 0)"
proof -
  define q where "q = a div k"
  define r where "r = a mod k"
  have e1: "a = q * k + r" and b: "0 \<le> r" "r < k"
    using assms by (simp_all add: q_def r_def)
  show ?thesis
  proof (cases "r = k - 1")
    case True
    then have "a + 1 = (q + 1) * k" using e1 by (simp add: algebra_simps)
    then show ?thesis using assms by (simp add: q_def[symmetric])
  next
    case False
    then have lt: "r + 1 < k" "0 \<le> r + 1" using b by linarith+
    have e2: "a + 1 = q * k + (r + 1)" using e1 by simp
    have "(a + 1) div k = q"
      unfolding e2 using lt assms by (simp add: div_pos_pos_trivial)
    moreover have "(a + 1) mod k = r + 1"
      unfolding e2 using lt assms by (simp add: mod_pos_pos_trivial)
    ultimately show ?thesis using b by (simp add: q_def)
  qed
qed

lemma mod_shift:
  fixes y k n :: int
  shows "(y - k * n) mod k = y mod k"
proof -
  have "(y - k * n) mod k = (y + k * (- n)) mod k" by simp
  also have "\<dots> = y mod k" by (rule mod_mult_self2)
  finally show ?thesis .
qed

lemma dvd_mod_zero:
  fixes y j k :: int
  assumes "j dvd k" and "y mod k = 0"
  shows "y mod j = 0"
proof -
  from assms(2) have "k dvd y" by (simp add: dvd_eq_mod_eq_0)
  with assms(1) have "j dvd y" by (rule dvd_trans)
  then show ?thesis by simp
qed

lemma step4: "(y - 1968) div 4 = (y - 1969) div 4 + (if y mod 4 = 0 then 1 else 0)" for y :: int
proof -
  have r4: "(y - 1968) mod 4 = y mod 4"
    using mod_shift[of y 4 492] by simp
  have e: "y - 1969 + 1 = y - 1968" by simp
  show ?thesis using div_step[of 4 "y - 1969"] unfolding e r4 by simp
qed

lemma step100: "(y - 1900) div 100 = (y - 1901) div 100 + (if y mod 100 = 0 then 1 else 0)" for y :: int
proof -
  have r: "(y - 1900) mod 100 = y mod 100"
    using mod_shift[of y 100 19] by simp
  have e: "y - 1901 + 1 = y - 1900" by simp
  show ?thesis using div_step[of 100 "y - 1901"] unfolding e r by simp
qed

lemma step400: "(y - 1600) div 400 = (y - 1601) div 400 + (if y mod 400 = 0 then 1 else 0)" for y :: int
proof -
  have r: "(y - 1600) mod 400 = y mod 400"
    using mod_shift[of y 400 4] by simp
  have e: "y - 1601 + 1 = y - 1600" by simp
  show ?thesis using div_step[of 400 "y - 1601"] unfolding e r by simp
qed

lemma day_from_year_step: "day_from_year (y + 1) = day_from_year y + days_in_year y"
proof -
  have m100: "y mod 4 = 0" if "y mod 100 = 0"
    using that by (intro dvd_mod_zero[of 4 100 y]) simp_all
  have m400: "y mod 100 = 0" if "y mod 400 = 0"
    using that by (intro dvd_mod_zero[of 100 400 y]) simp_all
  have e: "day_from_year (y + 1) =
      365 * (y - 1969) + (y - 1968) div 4 - (y - 1900) div 100 + (y - 1600) div 400"
    by (simp add: day_from_year_def)
  consider (a) "y mod 4 \<noteq> 0" | (b) "y mod 4 = 0" "y mod 100 \<noteq> 0"
    | (c) "y mod 100 = 0" "y mod 400 \<noteq> 0" | (d) "y mod 400 = 0"
    by argo
  then show ?thesis
  proof cases
    case a
    then have "y mod 100 \<noteq> 0" "y mod 400 \<noteq> 0" using m100 m400 by argo+
    with a show ?thesis
      unfolding e step4 step100 step400 by (simp add: days_in_year_def day_from_year_def)
  next
    case b
    then have "y mod 400 \<noteq> 0" using m400 by argo
    with b show ?thesis
      unfolding e step4 step100 step400 by (simp add: days_in_year_def day_from_year_def)
  next
    case c
    then have "y mod 4 = 0" using m100 by argo
    with c show ?thesis
      unfolding e step4 step100 step400 by (simp add: days_in_year_def day_from_year_def)
  next
    case d
    then have "y mod 100 = 0" "y mod 4 = 0" using m100 m400 by argo+
    with d show ?thesis
      unfolding e step4 step100 step400 by (simp add: days_in_year_def day_from_year_def)
  qed
qed

lemma days_in_year_range: "days_in_year y = 365 \<or> days_in_year y = 366"
  by (simp add: days_in_year_def)

lemma day_from_year_approx:
  "146097 * (y - 1970) - 608 \<le> 400 * day_from_year y"
  "400 * day_from_year y \<le> 146097 * (y - 1970) + 589"
proof -
  define q4 where "q4 = (y - 1969) div 4"
  define q100 where "q100 = (y - 1901) div 100"
  define q400 where "q400 = (y - 1601) div 400"
  have b4: "4 * q4 \<le> y - 1969" "y - 1969 < 4 * q4 + 4"
    unfolding q4_def using div_bounds[of 4 "y - 1969"] by simp_all
  have b100: "100 * q100 \<le> y - 1901" "y - 1901 < 100 * q100 + 100"
    unfolding q100_def using div_bounds[of 100 "y - 1901"] by simp_all
  have b400: "400 * q400 \<le> y - 1601" "y - 1601 < 400 * q400 + 400"
    unfolding q400_def using div_bounds[of 400 "y - 1601"] by simp_all
  have e: "day_from_year y = 365 * (y - 1970) + q4 - q100 + q400"
    by (simp add: day_from_year_def q4_def q100_def q400_def)
  show "146097 * (y - 1970) - 608 \<le> 400 * day_from_year y"
    unfolding e using b4 b100 b400 by (simp add: algebra_simps)
  show "400 * day_from_year y \<le> 146097 * (y - 1970) + 589"
    unfolding e using b4 b100 b400 by (simp add: algebra_simps)
qed

lemma year_estimate:
  fixes d :: int
  defines "y \<equiv> 1970 + (400 * d) div 146097"
  shows "day_from_year (y - 1) \<le> d" and "d < day_from_year (y + 2)"
proof -
  define q where "q = (400 * d) div 146097"
  have e: "146097 * q \<le> 400 * d" "400 * d < 146097 * q + 146097"
    unfolding q_def using div_bounds[of 146097 "400 * d"] by simp_all
  have y: "y = 1970 + q" by (simp add: y_def q_def)
  show "day_from_year (y - 1) \<le> d"
    using day_from_year_approx(2)[of "y - 1"] e unfolding y by (simp add: algebra_simps)
  show "d < day_from_year (y + 2)"
    using day_from_year_approx(1)[of "y + 2"] e unfolding y by (simp add: algebra_simps)
qed

text \<open>The year of a time value contains its day.\<close>

lemma year_from_time_bounds:
  "day_from_year (year_from_time t) \<le> day t"
  "day t < day_from_year (year_from_time t + 1)"
proof -
  define y where "y = 1970 + (400 * day t) div 146097"
  have lo: "day_from_year (y - 1) \<le> day t" and hi: "day t < day_from_year (y + 2)"
    unfolding y_def by (rule year_estimate)+
  have s1: "day_from_year y = day_from_year (y - 1) + days_in_year (y - 1)"
    using day_from_year_step[of "y - 1"] by simp
  have s2: "day_from_year (y + 2) = day_from_year (y + 1) + days_in_year (y + 1)"
    using day_from_year_step[of "y + 1"] by (simp add: add.commute)
  have yft: "year_from_time t =
      (if day t < day_from_year y then y - 1
       else if day_from_year (y + 1) \<le> day t then y + 1 else y)"
    by (simp add: year_from_time_def y_def Let_def)
  show "day_from_year (year_from_time t) \<le> day t"
    unfolding yft using lo by simp
  show "day t < day_from_year (year_from_time t + 1)"
    unfolding yft using hi by (simp add: add.commute)
qed

lemma day_from_year_mono:
  assumes "y \<le> z"
  shows "day_from_year y \<le> day_from_year z"
proof -
  have "day_from_year y \<le> day_from_year (y + int n)" for n
  proof (induction n)
    case 0
    show ?case by simp
  next
    case (Suc n)
    have "y + int (Suc n) = (y + int n) + 1" by simp
    then have "day_from_year (y + int (Suc n)) = day_from_year (y + int n) + days_in_year (y + int n)"
      using day_from_year_step[of "y + int n"] by presburger
    with Suc days_in_year_range[of "y + int n"] show ?case by linarith
  qed
  from this[of "nat (z - y)"] assms show ?thesis by simp
qed

text \<open>
  \<open>year_from_time t\<close> is the largest year whose first instant is not after \<open>t\<close>, as the
  standard defines \<open>YearFromTime\<close>.
\<close>

lemma year_from_time_largest:
  "time_from_year (year_from_time t) \<le> t"
  "time_from_year y \<le> t \<Longrightarrow> y \<le> year_from_time t"
proof -
  have "ms_per_day * day t \<le> t"
    unfolding day_def using div_bounds(1)[of ms_per_day t] by (simp add: ms_per_day_def)
  moreover have "ms_per_day * day_from_year (year_from_time t) \<le> ms_per_day * day t"
    using year_from_time_bounds(1)[of t] by (simp add: ms_per_day_def)
  ultimately show "time_from_year (year_from_time t) \<le> t"
    unfolding time_from_year_def by linarith
next
  assume a: "time_from_year y \<le> t"
  show "y \<le> year_from_time t"
  proof (rule ccontr)
    assume "\<not> y \<le> year_from_time t"
    then have "year_from_time t + 1 \<le> y" by simp
    then have "day_from_year (year_from_time t + 1) \<le> day_from_year y"
      by (rule day_from_year_mono)
    with year_from_time_bounds(2)[of t] have "day t + 1 \<le> day_from_year y" by linarith
    then have "ms_per_day * (day t + 1) \<le> ms_per_day * day_from_year y"
      by (simp add: ms_per_day_def)
    moreover have "t < ms_per_day * day t + ms_per_day"
      unfolding day_def using div_bounds(2)[of ms_per_day t] by (simp add: ms_per_day_def)
    ultimately show False using a unfolding time_from_year_def by (simp add: algebra_simps)
  qed
qed

lemma day_within_year_bounds:
  "0 \<le> day_within_year t" "day_within_year t < days_in_year (year_from_time t)"
  using year_from_time_bounds[of t] day_from_year_step[of "year_from_time t"]
  by (simp_all add: day_within_year_def)

lemma leap_flag: "days_in_year y = 365 + leap_of_year y"
  using days_in_year_range[of y] by (auto simp: leap_of_year_def)

lemma leap_of_year_range: "leap_of_year y = 0 \<or> leap_of_year y = 1"
  by (simp add: leap_of_year_def)

lemma month_from_time_range: "0 \<le> month_from_time t" "month_from_time t \<le> 11"
  by (simp_all add: month_from_time_def Let_def)

lemma date_from_time_eq:
  "date_from_time t = day_within_year t - month_start (in_leap_year t) (month_from_time t) + 1"
  by (simp add: date_from_time_def month_start_def Let_def)

lemma make_day_inverse:
  "make_day (year_from_time t) (month_from_time t) (date_from_time t) = day t"
proof -
  have "month_from_time t div 12 = 0" "month_from_time t mod 12 = month_from_time t"
    using month_from_time_range[of t] by simp_all
  then show ?thesis
    by (simp add: make_day_def Let_def date_from_time_eq in_leap_year_def day_within_year_def)
qed

lemma year_from_time_unique:
  assumes "day_from_year y \<le> day t" and "day t < day_from_year (y + 1)"
  shows "year_from_time t = y"
proof -
  have "\<not> year_from_time t + 1 \<le> y"
  proof
    assume "year_from_time t + 1 \<le> y"
    then have "day_from_year (year_from_time t + 1) \<le> day_from_year y"
      by (rule day_from_year_mono)
    with year_from_time_bounds(2)[of t] assms(1) show False by linarith
  qed
  moreover have "\<not> y + 1 \<le> year_from_time t"
  proof
    assume "y + 1 \<le> year_from_time t"
    then have "day_from_year (y + 1) \<le> day_from_year (year_from_time t)"
      by (rule day_from_year_mono)
    with year_from_time_bounds(1)[of t] assms(2) show False by linarith
  qed
  ultimately show ?thesis by linarith
qed

lemma make_day_in_year:
  assumes "0 \<le> m" "m \<le> 11"
  shows "make_day y m d = day_from_year y + month_start (leap_of_year y) m + d - 1"
proof -
  have "m div 12 = 0" "m mod 12 = m" using assms by simp_all
  then show ?thesis by (simp add: make_day_def Let_def)
qed

lemma make_day_carry: "make_day y (m + 12) d = make_day (y + 1) m d"
proof -
  have "(m + 12) div 12 = m div 12 + 1" "(m + 12) mod 12 = m mod 12" by simp_all
  then show ?thesis by (simp add: make_day_def Let_def add.assoc add.commute add.left_commute)
qed

lemma month_cases:
  fixes m :: int
  assumes "0 \<le> m" "m \<le> 11"
  shows "m = 0 \<or> m = 1 \<or> m = 2 \<or> m = 3 \<or> m = 4 \<or> m = 5 \<or> m = 6 \<or> m = 7 \<or> m = 8
         \<or> m = 9 \<or> m = 10 \<or> m = 11"
  using assms by arith

lemma make_day_month_step:
  assumes "0 \<le> m" "m \<le> 11"
  shows "make_day y (m + 1) d = make_day y m d + days_in_month y m"
proof (cases "m = 11")
  case True
  have "make_day y 12 d = make_day (y + 1) 0 d"
    using make_day_carry[of y 0 d] by simp
  also have "\<dots> = day_from_year y + days_in_year y + d - 1"
    by (simp add: make_day_in_year month_start_def day_from_year_step)
  finally show ?thesis
    using True by (simp add: make_day_in_year month_start_def days_in_month_def leap_flag)
next
  case False
  with assms have r: "0 \<le> m + 1" "m + 1 \<le> 11" by simp_all
  show ?thesis
    unfolding make_day_in_year[OF assms] make_day_in_year[OF r]
    using month_cases[OF assms] False
    by (auto simp: month_start_def days_in_month_def)
qed

lemma days_in_month_range: "28 \<le> days_in_month y m" "days_in_month y m \<le> 31"
  using leap_of_year_range[of y] by (auto simp: days_in_month_def)

lemma make_day_year_step:
  assumes "0 \<le> m" "m \<le> 11"
  shows "make_day (y + 1) m d =
         make_day y m d + (if m \<le> 1 then days_in_year y else days_in_year (y + 1))"
  unfolding make_day_in_year[OF assms]
  using month_cases[OF assms]
  by (auto simp: month_start_def day_from_year_step leap_flag)

lemma month_span:
  assumes m: "0 \<le> m" "m \<le> 11" and d: "1 \<le> d" "d \<le> days_in_month y m"
  shows "0 \<le> month_start (leap_of_year y) m + d - 1"
    and "month_start (leap_of_year y) m + d - 1 < 365 + leap_of_year y"
  using month_cases[OF m] d leap_of_year_range[of y]
  by (elim disjE; simp add: days_in_month_def month_start_def)+

lemma month_of_day_within_year:
  assumes m: "0 \<le> m" "m \<le> 11" and d: "1 \<le> d" "d \<le> days_in_month y m"
    and w: "day_within_year t = month_start (leap_of_year y) m + d - 1"
    and l: "in_leap_year t = leap_of_year y"
  shows "month_from_time t = m"
  using month_cases[OF m] d leap_of_year_range[of y]
  unfolding month_from_time_def w l Let_def
  by (elim disjE; simp add: days_in_month_def month_start_def)


lemma fields_of_make_day:
  assumes m: "0 \<le> m" "m \<le> 11" and d: "1 \<le> d" "d \<le> days_in_month y m"
    and t: "day t = make_day y m d"
  shows "year_from_time t = y \<and> month_from_time t = m \<and> date_from_time t = d"
proof -
  have dy: "day t = day_from_year y + (month_start (leap_of_year y) m + d - 1)"
    using t make_day_in_year[OF m] by simp
  have "day_from_year y \<le> day t" "day t < day_from_year (y + 1)"
    using dy month_span[OF m d] by (simp_all add: day_from_year_step leap_flag)
  then have y: "year_from_time t = y" by (rule year_from_time_unique)
  have w: "day_within_year t = month_start (leap_of_year y) m + d - 1"
    using dy by (simp add: day_within_year_def y)
  have il: "in_leap_year t = leap_of_year y" by (simp add: in_leap_year_def y)
  have mm: "month_from_time t = m"
    using m d w il by (rule month_of_day_within_year)
  have "date_from_time t = d"
    unfolding date_from_time_eq w il mm by simp
  with y mm show ?thesis by simp
qed

lemma make_day_normal: "make_day y m d = make_day (y + m div 12) (m mod 12) d"
  by (simp add: make_day_def Let_def)

lemma make_day_month_step_any:
  "make_day y (m + 1) d = make_day y m d + days_in_month (y + m div 12) (m mod 12)"
proof -
  have r: "0 \<le> m mod 12" "m mod 12 \<le> 11" by simp_all
  have s: "(m mod 12 + 1) mod 12 = (m + 1) mod 12" by (rule mod_add_left_eq)
  have "make_day y (m + 1) d = make_day (y + m div 12) (m mod 12 + 1) d"
  proof (cases "m mod 12 = 11")
    case True
    then have "(m + 1) mod 12 = 0" using s by simp
    moreover from True have "(m + 1) div 12 = m div 12 + 1"
      using div_step[of 12 m] \<open>(m + 1) mod 12 = 0\<close> by simp
    ultimately show ?thesis using True by (simp add: make_day_def Let_def add.assoc)
  next
    case False
    then have lt: "m mod 12 + 1 < 12" using r by linarith
    have e: "(m + 1) mod 12 = m mod 12 + 1"
      using lt r s[symmetric] by (simp add: mod_pos_pos_trivial)
    then have "(m + 1) div 12 = m div 12"
      using div_step[of 12 m] r by simp
    with e lt r show ?thesis by (simp add: make_day_def Let_def div_pos_pos_trivial mod_pos_pos_trivial)
  qed
  also have "\<dots> = make_day (y + m div 12) (m mod 12) d + days_in_month (y + m div 12) (m mod 12)"
    using r by (rule make_day_month_step)
  finally show ?thesis using make_day_normal[of y m d] by simp
qed

lemma make_day_month_grows: "make_day y m d + 28 \<le> make_day y (m + 1) d"
  using make_day_month_step_any[of y m d] days_in_month_range(1)[of "y + m div 12" "m mod 12"]
  by linarith

lemma make_day_two_months_grows: "make_day y m d + 56 \<le> make_day y (m + 2) d"
proof -
  have "make_day y (m + 1 + 1) d = make_day y (m + 2) d"
    by (rule arg_cong[where f = "\<lambda>k. make_day y k d"]) simp
  then have "make_day y (m + 1) d + 28 \<le> make_day y (m + 2) d"
    using make_day_month_grows[of y "m + 1" d] by linarith
  with make_day_month_grows[of y m d] show ?thesis by linarith
qed

lemma make_day_year_grows:
  assumes "0 \<le> m" "m \<le> 11"
  shows "make_day y m d + 365 \<le> make_day (y + 1) m d"
  using make_day_year_step[OF assms, of y d] days_in_year_range[of y] days_in_year_range[of "y + 1"]
  by (auto split: if_splits)

lemma time_split: "t = day t * ms_per_day + time_within_day t"
  by (simp add: day_def time_within_day_def)

text \<open>A date moved to a later day, by at least 28 days, and back to UTC is later.\<close>

lemma local_tza_bound: "\<bar>local_tza z t k\<bar> < ms_per_day"
  unfolding ms_per_day_def by transfer simp

lemma moved_date_later:
  assumes n: "day (local_time z s) + 28 \<le> n"
    and c: "time_clip (utc z (make_date n (time_within_day (local_time z s)))) = Some t"
  shows "s < t"
proof -
  define lt where "lt = local_time z s"
  define nl where "nl = make_date n (time_within_day lt)"
  have t: "t = nl - local_tza z nl False"
    using c by (simp add: time_clip_def utc_def nl_def lt_def split: if_splits)
  have "lt = day lt * ms_per_day + time_within_day lt" by (rule time_split)
  moreover have "(day lt + 28) * ms_per_day \<le> n * ms_per_day"
    using n by (simp add: lt_def ms_per_day_def)
  ultimately have "lt + 28 * ms_per_day \<le> nl"
    by (simp add: nl_def make_date_def algebra_simps)
  moreover have "lt = s + local_tza z s True" by (simp add: lt_def local_time_def)
  moreover have "\<bar>local_tza z s True\<bar> < ms_per_day" "\<bar>local_tza z nl False\<bar> < ms_per_day"
    by (rule local_tza_bound)+
  ultimately show ?thesis unfolding t by (simp add: ms_per_day_def)
qed

lemma setMonth_later:
  assumes k: "k = 1 \<or> k = 2"
    and c: "setMonth z s (getMonth z s + k) = Some t"
  shows "s < t"
proof -
  define lt where "lt = local_time z s"
  have "make_day (year_from_time lt) (month_from_time lt) (date_from_time lt) + 28
        \<le> make_day (year_from_time lt) (month_from_time lt + k) (date_from_time lt)"
    using k make_day_month_grows[of "year_from_time lt" "month_from_time lt" "date_from_time lt"]
      make_day_two_months_grows[of "year_from_time lt" "month_from_time lt" "date_from_time lt"]
    by auto
  then have "day (local_time z s) + 28
        \<le> make_day (year_from_time lt) (month_from_time lt + k) (date_from_time lt)"
    by (simp add: make_day_inverse lt_def)
  moreover have "time_clip (utc z (make_date
       (make_day (year_from_time lt) (month_from_time lt + k) (date_from_time lt))
       (time_within_day (local_time z s)))) = Some t"
    using c by (simp add: setMonth_def getMonth_def Let_def lt_def)
  ultimately show ?thesis by (rule moved_date_later)
qed

lemma setFullYear_later:
  assumes c: "setFullYear z s (getFullYear z s + 1) = Some t"
  shows "s < t"
proof -
  define lt where "lt = local_time z s"
  have "make_day (year_from_time lt) (month_from_time lt) (date_from_time lt) + 365
        \<le> make_day (year_from_time lt + 1) (month_from_time lt) (date_from_time lt)"
    using month_from_time_range[of lt] by (rule make_day_year_grows)
  then have "day (local_time z s) + 28
        \<le> make_day (year_from_time lt + 1) (month_from_time lt) (date_from_time lt)"
    by (simp add: make_day_inverse lt_def)
  moreover have "time_clip (utc z (make_date
       (make_day (year_from_time lt + 1) (month_from_time lt) (date_from_time lt))
       (time_within_day (local_time z s)))) = Some t"
    using c by (simp add: setFullYear_def getFullYear_def Let_def lt_def)
  ultimately show ?thesis by (rule moved_date_later)
qed

text \<open>
  Moving a date by one month gives a valid date, unless the date lies within some months
  of the ends of the range of time values (the years -271821 and 275760).
\<close>

lemma monthly_end_valid:
  assumes s: "\<bar>s\<bar> \<le> 8639990000000000"
  shows "\<exists>t. setMonth z s (getMonth z s + 1) = Some t"
proof -
  define lt where "lt = local_time z s"
  define n where
    "n = make_day (year_from_time lt) (month_from_time lt + 1) (date_from_time lt)"
  define nl where "nl = make_date n (time_within_day lt)"
  have "n = day lt + days_in_month (year_from_time lt + month_from_time lt div 12)
                       (month_from_time lt mod 12)"
    unfolding n_def
    using make_day_month_step_any[of "year_from_time lt" "month_from_time lt" "date_from_time lt"]
    by (simp add: make_day_inverse)
  then have n: "day lt \<le> n" "n \<le> day lt + 31"
    using days_in_month_range[of "year_from_time lt + month_from_time lt div 12"
        "month_from_time lt mod 12"]
    by simp_all
  have "lt = day lt * ms_per_day + time_within_day lt" by (rule time_split)
  moreover have "day lt * ms_per_day \<le> n * ms_per_day"
    "n * ms_per_day \<le> (day lt + 31) * ms_per_day"
    using n by (simp_all add: ms_per_day_def)
  ultimately have nl: "lt \<le> nl" "nl \<le> lt + 31 * ms_per_day"
    by (simp_all add: nl_def make_date_def algebra_simps)
  have "lt = s + local_tza z s True" by (simp add: lt_def local_time_def)
  moreover have "\<bar>local_tza z s True\<bar> < ms_per_day" "\<bar>local_tza z nl False\<bar> < ms_per_day"
    by (rule local_tza_bound)+
  ultimately have "\<bar>utc z nl\<bar> \<le> 8640000000000000"
    using nl s by (simp add: utc_def ms_per_day_def)
  then have "setMonth z s (getMonth z s + 1) = Some (utc z nl)"
    by (simp add: setMonth_def getMonth_def Let_def time_clip_def nl_def n_def lt_def)
  then show ?thesis ..
qed

lemma date_from_time_range:
  "1 \<le> date_from_time t"
  "date_from_time t \<le> days_in_month (year_from_time t) (month_from_time t)"
proof -
  define w where "w = day_within_year t"
  define l where "l = leap_of_year (year_from_time t)"
  have w: "0 \<le> w" "w < 365 + l"
    using day_within_year_bounds[of t] by (simp_all add: w_def l_def leap_flag)
  have l: "l = 0 \<or> l = 1" unfolding l_def by (rule leap_of_year_range)
  have m: "month_from_time t =
      (if w < 31 then 0 else if w < 59 + l then 1 else if w < 90 + l then 2
       else if w < 120 + l then 3 else if w < 151 + l then 4 else if w < 181 + l then 5
       else if w < 212 + l then 6 else if w < 243 + l then 7 else if w < 273 + l then 8
       else if w < 304 + l then 9 else if w < 334 + l then 10 else 11)"
    by (simp add: month_from_time_def Let_def w_def l_def in_leap_year_def)
  have d: "date_from_time t = w - month_start l (month_from_time t) + 1"
    by (simp add: date_from_time_eq w_def l_def in_leap_year_def)
  show "1 \<le> date_from_time t"
    unfolding d m using w l by (simp add: month_start_def)
  show "date_from_time t \<le> days_in_month (year_from_time t) (month_from_time t)"
    unfolding d m using w l by (simp add: month_start_def days_in_month_def l_def[symmetric])
qed

lemma time_within_day_range: "0 \<le> time_within_day t" "time_within_day t < ms_per_day"
  by (simp_all add: time_within_day_def ms_per_day_def)

lemma day_of_make_date:
  assumes "0 \<le> tm" "tm < ms_per_day"
  shows "day (make_date n tm) = n" and "time_within_day (make_date n tm) = tm"
proof -
  have p: "(0::int) < ms_per_day" by (simp add: ms_per_day_def)
  have "(n * ms_per_day + tm) div ms_per_day = n"
    using assms p by (simp add: div_pos_pos_trivial)
  then show "day (make_date n tm) = n" by (simp add: day_def make_date_def)
  have "(n * ms_per_day + tm) mod ms_per_day = tm"
    using assms p by (simp add: mod_pos_pos_trivial)
  then show "time_within_day (make_date n tm) = tm"
    by (simp add: time_within_day_def make_date_def)
qed

lemma make_day_shift: "make_day y m (d + c) = make_day y m d + c"
  by (simp add: make_day_def Let_def)

lemma rollover_fields:
  assumes d: "1 \<le> d" "d \<le> 31" and t: "day t = make_day y k d"
  shows "(year_from_time t, month_from_time t, date_from_time t) = rollover y k d"
proof -
  define y1 where "y1 = y + k div 12"
  define m1 where "m1 = k mod 12"
  define n where "n = days_in_month y1 m1"
  have m1: "0 \<le> m1" "m1 \<le> 11" by (simp_all add: m1_def)
  have t1: "day t = make_day y1 m1 d"
    using t make_day_normal[of y k d] by (simp add: y1_def m1_def)
  show ?thesis
  proof (cases "d \<le> n")
    case True
    then have "year_from_time t = y1 \<and> month_from_time t = m1 \<and> date_from_time t = d"
      using m1 d(1) t1 unfolding n_def by (intro fields_of_make_day) simp_all
    with True show ?thesis
      by (simp add: rollover_def Let_def y1_def[symmetric] m1_def[symmetric] n_def[symmetric])
  next
    case False
    define y2 where "y2 = y1 + (m1 + 1) div 12"
    define m2 where "m2 = (m1 + 1) mod 12"
    have m2: "0 \<le> m2" "m2 \<le> 11" by (simp_all add: m2_def)
    have n: "28 \<le> n" "n \<le> 31" unfolding n_def by (rule days_in_month_range)+
    have "make_day y1 (m1 + 1) (d - n) = make_day y1 m1 (d - n) + n"
      using make_day_month_step[OF m1, of y1 "d - n"] by (simp add: n_def)
    also have "\<dots> = make_day y1 m1 d"
      using make_day_shift[of y1 m1 "d - n" n] by simp
    finally have "day t = make_day y1 (m1 + 1) (d - n)" using t1 by simp
    then have t2: "day t = make_day y2 m2 (d - n)"
      using make_day_normal[of y1 "m1 + 1" "d - n"] by (simp add: y2_def m2_def)
    have "d - n \<le> days_in_month y2 m2"
      using d n days_in_month_range(1)[of y2 m2] by linarith
    moreover have "1 \<le> d - n" using False by simp
    ultimately have "year_from_time t = y2 \<and> month_from_time t = m2 \<and> date_from_time t = d - n"
      using m2 t2 by (intro fields_of_make_day) simp_all
    with False show ?thesis
      by (simp add: rollover_def Let_def y1_def[symmetric] m1_def[symmetric] n_def[symmetric]
          y2_def m2_def)
  qed
qed

lemma date_from_time_le_31: "date_from_time t \<le> 31"
  using date_from_time_range(2)[of t]
    days_in_month_range(2)[of "year_from_time t" "month_from_time t"]
  by linarith

lemma moved_date_fields:
  fixes lt y k :: int
  defines "nl \<equiv> make_date (make_day y k (date_from_time lt)) (time_within_day lt)"
  shows "(year_from_time nl, month_from_time nl, date_from_time nl)
           = rollover y k (date_from_time lt)
         \<and> time_within_day nl = time_within_day lt"
proof -
  have "day nl = make_day y k (date_from_time lt)" "time_within_day nl = time_within_day lt"
    unfolding nl_def using time_within_day_range[of lt] by (simp_all add: day_of_make_date)
  then show ?thesis
    using rollover_fields[OF date_from_time_range(1)[of lt] date_from_time_le_31[of lt], of nl y k]
    by simp
qed

section \<open>The email pattern and its language\<close>

lemma nullable_lang: "nullable r \<longleftrightarrow> [] \<in> lang r"
  by (induction r) (auto intro: repeats.none)

lemma repeats_front:
  assumes "repeats A x" and "x = c # w"
  shows "\<exists>u v. w = u @ v \<and> c # u \<in> A \<and> repeats A v"
  using assms
proof (induction arbitrary: w rule: repeats.induct)
  case none
  then show ?case by simp
next
  case (more u v)
  show ?case
  proof (cases u)
    case Nil
    with more show ?thesis by simp
  next
    case (Cons a u')
    with more.prems have "a = c" "w = u' @ v" by simp_all
    with more.hyps Cons show ?thesis by blast
  qed
qed

lemma repeats_Cons:
  "repeats A (c # w) \<longleftrightarrow> (\<exists>u v. w = u @ v \<and> c # u \<in> A \<and> repeats A v)"
proof
  assume "repeats A (c # w)"
  then show "\<exists>u v. w = u @ v \<and> c # u \<in> A \<and> repeats A v"
    by (rule repeats_front) simp
next
  assume "\<exists>u v. w = u @ v \<and> c # u \<in> A \<and> repeats A v"
  then obtain u v where "w = u @ v" "c # u \<in> A" "repeats A v" by blast
  then show "repeats A (c # w)" using repeats.more[of "c # u" A v] by simp
qed

lemma deriv_lang: "w \<in> lang (deriv c r) \<longleftrightarrow> c # w \<in> lang r"
proof (induction r arbitrary: w)
  case (RSeq r s)
  have "c # w \<in> lang (RSeq r s) \<longleftrightarrow>
        ([] \<in> lang r \<and> c # w \<in> lang s)
        \<or> (\<exists>u v. w = u @ v \<and> c # u \<in> lang r \<and> v \<in> lang s)"
    by (auto simp: Cons_eq_append_conv)
  with RSeq show ?case by (auto simp: nullable_lang)
next
  case (RStar r)
  then show ?case by (auto simp: repeats_Cons)
qed auto

lemma matches_lang: "matches r w \<longleftrightarrow> w \<in> lang r"
  by (induction w arbitrary: r) (simp_all add: nullable_lang deriv_lang)

lemma repeats_class:
  "repeats {w. \<exists>c. w = [c] \<and> p c} w \<longleftrightarrow> list_all p w"
proof (induction w)
  case Nil
  show ?case by (simp add: repeats.none)
next
  case (Cons a w)
  show ?case unfolding repeats_Cons using Cons by auto
qed

lemma lang_plus_class: "w \<in> lang (RPlus (RClass p)) \<longleftrightarrow> w \<noteq> [] \<and> list_all p w"
proof
  assume "w \<in> lang (RPlus (RClass p))"
  then obtain c v where "w = [c] @ v" "p c" "list_all p v"
    by (auto simp: RPlus_def repeats_class)
  then show "w \<noteq> [] \<and> list_all p w" by simp
next
  assume a: "w \<noteq> [] \<and> list_all p w"
  then obtain c v where w: "w = c # v" by (cases w) auto
  with a have "p c" "list_all p v" by simp_all
  then have "[c] \<in> lang (RClass p)" "v \<in> lang (RStar (RClass p))"
    by (simp_all add: repeats_class)
  then have "[c] @ v \<in> lang (RPlus (RClass p))"
    unfolding RPlus_def lang.simps(4) by blast
  with w show "w \<in> lang (RPlus (RClass p))" by simp
qed

text \<open>
  The strings that the pattern of line 87 accepts: a local part, \<^verbatim>\<open>@\<close>, a domain, a dot
  and a last part, none of them empty, with no white space and no other \<^verbatim>\<open>@\<close>.
\<close>

lemma emailRegex_accepts:
  "matches emailRegex s \<longleftrightarrow>
     (\<exists>a b c. s = a @ ''@'' @ b @ ''.'' @ c
        \<and> a \<noteq> [] \<and> b \<noteq> [] \<and> c \<noteq> []
        \<and> list_all not_space_or_at a \<and> list_all not_space_or_at b
        \<and> list_all not_space_or_at c)"
proof -
  let ?part = "lang (RPlus (RClass not_space_or_at))"
  have at: "lang (RClass (\<lambda>c. c = CHR ''@'')) = {''@''}"
    and dot: "lang (RClass (\<lambda>c. c = CHR ''.'')) = {''.''}"
    by auto
  have "s \<in> lang emailRegex \<longleftrightarrow>
     (\<exists>a b c. s = a @ ''@'' @ b @ ''.'' @ c \<and> a \<in> ?part \<and> b \<in> ?part \<and> c \<in> ?part)"
  proof
    assume "s \<in> lang emailRegex"
    then obtain a r1 where 1: "s = a @ r1" "a \<in> ?part"
      and "r1 \<in> lang (RSeq (RClass (\<lambda>c. c = CHR ''@''))
             (RSeq (RPlus (RClass not_space_or_at))
               (RSeq (RClass (\<lambda>c. c = CHR ''.'')) (RPlus (RClass not_space_or_at)))))"
      unfolding emailRegex_def lang.simps(4) by blast
    then obtain r2 where 2: "r1 = ''@'' @ r2"
      and "r2 \<in> lang (RSeq (RPlus (RClass not_space_or_at))
               (RSeq (RClass (\<lambda>c. c = CHR ''.'')) (RPlus (RClass not_space_or_at))))"
      unfolding lang.simps(4) at by blast
    then obtain b r3 where 3: "r2 = b @ r3" "b \<in> ?part"
      and "r3 \<in> lang (RSeq (RClass (\<lambda>c. c = CHR ''.'')) (RPlus (RClass not_space_or_at)))"
      unfolding lang.simps(4) by blast
    then obtain c where 4: "r3 = ''.'' @ c" "c \<in> ?part"
      unfolding lang.simps(4) dot by blast
    from 1 2 3 4 show "\<exists>a b c. s = a @ ''@'' @ b @ ''.'' @ c \<and> a \<in> ?part \<and> b \<in> ?part \<and> c \<in> ?part"
      by blast
  next
    assume "\<exists>a b c. s = a @ ''@'' @ b @ ''.'' @ c \<and> a \<in> ?part \<and> b \<in> ?part \<and> c \<in> ?part"
    then obtain a b c where s: "s = a @ ''@'' @ b @ ''.'' @ c"
      and p: "a \<in> ?part" "b \<in> ?part" "c \<in> ?part" by blast
    have "''.'' @ c \<in> lang (RSeq (RClass (\<lambda>c. c = CHR ''.'')) (RPlus (RClass not_space_or_at)))"
      unfolding lang.simps(4) dot using p(3) by blast
    then have "b @ ''.'' @ c \<in> lang (RSeq (RPlus (RClass not_space_or_at))
               (RSeq (RClass (\<lambda>c. c = CHR ''.'')) (RPlus (RClass not_space_or_at))))"
      unfolding lang.simps(4)[of "RPlus (RClass not_space_or_at)"] using p(2) by blast
    then have "''@'' @ b @ ''.'' @ c \<in> lang (RSeq (RClass (\<lambda>c. c = CHR ''@''))
             (RSeq (RPlus (RClass not_space_or_at))
               (RSeq (RClass (\<lambda>c. c = CHR ''.'')) (RPlus (RClass not_space_or_at)))))"
      unfolding lang.simps(4)[of "RClass (\<lambda>c. c = CHR ''@'')"] at by blast
    then show "s \<in> lang emailRegex"
      unfolding emailRegex_def s lang.simps(4)[of "RPlus (RClass not_space_or_at)"
          "RSeq (RClass (\<lambda>c. c = CHR ''@'')) (RSeq (RPlus (RClass not_space_or_at))
               (RSeq (RClass (\<lambda>c. c = CHR ''.'')) (RPlus (RClass not_space_or_at))))"]
      using p(1) by blast
  qed
  then show ?thesis
    unfolding matches_lang lang_plus_class by blast
qed

section \<open>The structure of the subscribe handlers\<close>

lemma subscribe_A_store_calls:
  "calls (subscribe_A_store db r m) = [Insert ''subscriptions'' r]
   \<or> (\<exists>x. m = Some x
          \<and> calls (subscribe_A_store db r m) = [Insert ''subscriptions'' r, Insert ''messages'' x])"
proof (cases "db (Insert ''subscriptions'' r)")
  case (ErrorThrown err)
  then show ?thesis by (simp add: subscribe_A_store_def subscribe_A_caught_def send_def Let_def returned_error_def)
next
  case (Data d)
  show ?thesis
  proof (cases m)
    case None
    with Data show ?thesis by (simp add: subscribe_A_store_def subscribe_A_caught_def send_def Let_def returned_error_def)
  next
    case (Some x)
    with Data show ?thesis
      by (cases "db (Insert ''messages'' x)")
        (simp_all add: subscribe_A_store_def subscribe_A_caught_def send_def Let_def returned_error_def)
  qed
next
  case (ErrorReturned err)
  show ?thesis
  proof (cases m)
    case None
    with ErrorReturned show ?thesis
      by (simp add: subscribe_A_store_def subscribe_A_caught_def send_def Let_def returned_error_def)
  next
    case (Some x)
    with ErrorReturned show ?thesis
      by (cases "db (Insert ''messages'' x)")
        (simp_all add: subscribe_A_store_def subscribe_A_caught_def send_def Let_def returned_error_def)
  qed
qed

lemma subscribe_B_store_calls:
  "calls (subscribe_B_store db r m s) = [Insert ''subscriptions'' r]
   \<or> (\<exists>x. m = Some x
          \<and> calls (subscribe_B_store db r m s) = [Insert ''subscriptions'' r, Insert ''messages'' x])"
proof (cases "db (Insert ''subscriptions'' r)")
  case (ErrorThrown err)
  then show ?thesis by (simp add: subscribe_B_store_def subscribe_B_caught_def send_def Let_def)
next
  case (ErrorReturned err)
  then show ?thesis by (simp add: subscribe_B_store_def subscribe_B_caught_def send_def Let_def)
next
  case (Data d)
  show ?thesis
  proof (cases m)
    case None
    with Data show ?thesis by (simp add: subscribe_B_store_def subscribe_B_caught_def send_def Let_def)
  next
    case (Some x)
    with Data show ?thesis
      by (cases "db (Insert ''messages'' x)")
        (simp_all add: subscribe_B_store_def subscribe_B_caught_def send_def Let_def)
  qed
qed

lemma subscribe_A_store_row:
  assumes "Insert ''subscriptions'' r' \<in> set (calls (subscribe_A_store db r m))"
  shows "r' = r"
  using subscribe_A_store_calls[of db r m] assms by auto

lemma subscribe_B_store_row:
  assumes "Insert ''subscriptions'' r' \<in> set (calls (subscribe_B_store db r m s))"
  shows "r' = r"
  using subscribe_B_store_calls[of db r m s] assms by auto

lemma subscribe_A_store_first:
  "Insert ''subscriptions'' r \<in> set (calls (subscribe_A_store db r m))"
  using subscribe_A_store_calls[of db r m] by auto

lemma subscribe_A_store_success:
  assumes "status (response (subscribe_A_store db r m)) = 200"
  shows "body (response (subscribe_A_store db r m)) =
           JObj [(''success'', JBool True), (''saved_to_db'', JBool True)]"
proof (cases m)
  case None
  with assms show ?thesis
    by (cases "db (Insert ''subscriptions'' r)")
      (simp_all add: subscribe_A_store_def subscribe_A_caught_def send_def Let_def returned_error_def)
next
  case (Some x)
  with assms show ?thesis
    by (cases "db (Insert ''subscriptions'' r)"; cases "db (Insert ''messages'' x)")
      (simp_all add: subscribe_A_store_def subscribe_A_caught_def send_def Let_def returned_error_def)
qed

lemma subscribe_B_store_success:
  assumes "status (response (subscribe_B_store db r m s)) = 200"
  shows "body (response (subscribe_B_store db r m s)) =
           JObj [(''success'', JBool True), (''subscription'', s)]"
proof (cases m)
  case None
  with assms show ?thesis
    by (cases "db (Insert ''subscriptions'' r)")
      (simp_all add: subscribe_B_store_def subscribe_B_caught_def send_def Let_def)
next
  case (Some x)
  with assms show ?thesis
    by (cases "db (Insert ''subscriptions'' r)"; cases "db (Insert ''messages'' x)")
      (simp_all add: subscribe_B_store_def subscribe_B_caught_def send_def Let_def)
qed

text \<open>The shape of a request that reaches the inserts.\<close>

lemma subscribe_A_reaches_store:
  assumes "truthy (prop_of (JObj b) ''customer_info'')"
    and "subscription_term_A (tz e) (prop_of (JObj b) ''plan_id'') (clock e 0) = (s, Some t)"
  shows "subscribe_A db e b =
           subscribe_A_store db
             [(''user_id'', prop_of (JObj b) ''user_id''),
              (''plan_id'', prop_of (JObj b) ''plan_id''),
              (''start_date'', JStr (iso_string (clock e 0))),
              (''end_date'', JStr (iso_string t)),
              (''status'', JStr ''active'')]
             (subscription_message_A (number_text e) (prop_of (JObj b) ''user_id'')
                (prop_of (JObj b) ''plan_id'') (prop_of (JObj b) ''payment_method'')
                (prop_of (JObj b) ''customer_info''))"
proof -
  have "s = clock e 0" using assms(2) by (simp add: subscription_term_A_def Let_def)
  with assms show ?thesis by (simp add: subscribe_A_def Let_def toISOString_def)
qed

lemma subscribe_A_store_reached:
  assumes "calls (subscribe_A db e b) \<noteq> [] \<or> status (response (subscribe_A db e b)) = 200"
  shows "truthy (prop_of (JObj b) ''customer_info'')
         \<and> (\<exists>t. subscription_term_A (tz e) (prop_of (JObj b) ''plan_id'') (clock e 0)
                   = (clock e 0, Some t))"
proof -
  obtain s en where
    tm: "subscription_term_A (tz e) (prop_of (JObj b) ''plan_id'') (clock e 0) = (s, en)"
    by (cases "subscription_term_A (tz e) (prop_of (JObj b) ''plan_id'') (clock e 0)")
  have s: "s = clock e 0" using tm by (simp add: subscription_term_A_def Let_def)
  have c: "truthy (prop_of (JObj b) ''customer_info'')"
  proof (rule ccontr)
    assume "\<not> truthy (prop_of (JObj b) ''customer_info'')"
    then have "calls (subscribe_A db e b) = []" "status (response (subscribe_A db e b)) = 400"
      by (simp_all add: subscribe_A_def Let_def send_def del: prop_of.simps)
    with assms show False by simp
  qed
  have "en \<noteq> None"
  proof
    assume "en = None"
    with c tm have "calls (subscribe_A db e b) = []" "status (response (subscribe_A db e b)) = 500"
      by (simp_all add: subscribe_A_def Let_def toISOString_def subscribe_A_caught_def send_def
          del: prop_of.simps)
    with assms show False by simp
  qed
  then obtain t where "en = Some t" by (cases en) simp_all
  with c tm s show ?thesis by simp
qed

lemma subscription_term_B_start:
  "subscription_term_B z p now = Some (s, en) \<Longrightarrow> s = now"
  by (auto simp: subscription_term_B_def Let_def split: if_splits)

lemma subscribe_B_reaches_store:
  assumes "truthy (prop_of (JObj b) ''plan_id'')"
    and "truthy (opt_prop (prop_of (JObj b) ''customer_info'') ''fullname'')"
    and "truthy (opt_prop (prop_of (JObj b) ''customer_info'') ''email'')"
    and "subscription_term_B (tz e) (prop_of (JObj b) ''plan_id'') (clock e 0) = Some (s, Some t)"
  shows "subscribe_B db e b =
           subscribe_B_store db
             [(''user_id'', JStr (uuid e)),
              (''plan_id'', prop_of (JObj b) ''plan_id''),
              (''start_date'', JStr (iso_string (clock e 0))),
              (''end_date'', JStr (iso_string t)),
              (''status'', JStr ''active'')]
             (subscription_message_B (number_text e) (JStr (uuid e))
                (prop_of (JObj b) ''plan_id'') (prop_of (JObj b) ''customer_info''))
             (JObj [(''plan'', prop_of (JObj b) ''plan_id''),
                    (''start_date'', JStr (iso_string (clock e 0))),
                    (''end_date'', JStr (iso_string t))])"
proof -
  have "s = clock e 0" using assms(4) by (rule subscription_term_B_start)
  with assms show ?thesis by (simp add: subscribe_B_def Let_def toISOString_def)
qed

lemma subscribe_B_store_reached:
  assumes "calls (subscribe_B db e b) \<noteq> [] \<or> status (response (subscribe_B db e b)) = 200"
  shows "truthy (prop_of (JObj b) ''plan_id'')
         \<and> truthy (opt_prop (prop_of (JObj b) ''customer_info'') ''fullname'')
         \<and> truthy (opt_prop (prop_of (JObj b) ''customer_info'') ''email'')
         \<and> (\<exists>t. subscription_term_B (tz e) (prop_of (JObj b) ''plan_id'') (clock e 0)
                   = Some (clock e 0, Some t))"
proof -
  have v: "truthy (prop_of (JObj b) ''plan_id'')
         \<and> truthy (opt_prop (prop_of (JObj b) ''customer_info'') ''fullname'')
         \<and> truthy (opt_prop (prop_of (JObj b) ''customer_info'') ''email'')"
  proof (rule ccontr)
    assume "\<not> (truthy (prop_of (JObj b) ''plan_id'')
         \<and> truthy (opt_prop (prop_of (JObj b) ''customer_info'') ''fullname'')
         \<and> truthy (opt_prop (prop_of (JObj b) ''customer_info'') ''email''))"
    then have "calls (subscribe_B db e b) = []" "status (response (subscribe_B db e b)) = 400"
      by (simp_all add: subscribe_B_def Let_def send_def del: prop_of.simps)
    with assms show False by simp
  qed
  have "subscription_term_B (tz e) (prop_of (JObj b) ''plan_id'') (clock e 0) \<noteq> None"
  proof
    assume "subscription_term_B (tz e) (prop_of (JObj b) ''plan_id'') (clock e 0) = None"
    with v have "calls (subscribe_B db e b) = []" "status (response (subscribe_B db e b)) = 400"
      by (simp_all add: subscribe_B_def Let_def send_def del: prop_of.simps)
    with assms show False by simp
  qed
  then obtain s en where
    tm: "subscription_term_B (tz e) (prop_of (JObj b) ''plan_id'') (clock e 0) = Some (s, en)"
    by (cases "subscription_term_B (tz e) (prop_of (JObj b) ''plan_id'') (clock e 0)") auto
  have s: "s = clock e 0" using tm by (rule subscription_term_B_start)
  have "en \<noteq> None"
  proof
    assume "en = None"
    with v tm have "calls (subscribe_B db e b) = []" "status (response (subscribe_B db e b)) = 500"
      by (simp_all add: subscribe_B_def Let_def toISOString_def subscribe_B_caught_def send_def
          del: prop_of.simps)
    with assms show False by simp
  qed
  then obtain t where "en = Some t" by (cases en) simp_all
  with v tm s show ?thesis by simp
qed

lemma subscribe_A_subscription_row:
  assumes "Insert ''subscriptions'' r \<in> set (calls (subscribe_A db e b))"
  shows "\<exists>t. subscription_term_A (tz e) (prop_of (JObj b) ''plan_id'') (clock e 0)
               = (clock e 0, Some t)
           \<and> r = [(''user_id'', prop_of (JObj b) ''user_id''),
                  (''plan_id'', prop_of (JObj b) ''plan_id''),
                  (''start_date'', JStr (iso_string (clock e 0))),
                  (''end_date'', JStr (iso_string t)),
                  (''status'', JStr ''active'')]"
proof -
  have "calls (subscribe_A db e b) \<noteq> []" using assms by auto
  then obtain t where c: "truthy (prop_of (JObj b) ''customer_info'')"
    and tm: "subscription_term_A (tz e) (prop_of (JObj b) ''plan_id'') (clock e 0)
               = (clock e 0, Some t)"
    using subscribe_A_store_reached[of db e b] by auto
  have "r = [(''user_id'', prop_of (JObj b) ''user_id''),
             (''plan_id'', prop_of (JObj b) ''plan_id''),
             (''start_date'', JStr (iso_string (clock e 0))),
             (''end_date'', JStr (iso_string t)),
             (''status'', JStr ''active'')]"
    using assms unfolding subscribe_A_reaches_store[OF c tm]
    by (rule subscribe_A_store_row)
  with tm show ?thesis by simp
qed

lemma subscribe_B_subscription_row:
  assumes "Insert ''subscriptions'' r \<in> set (calls (subscribe_B db e b))"
  shows "\<exists>t. subscription_term_B (tz e) (prop_of (JObj b) ''plan_id'') (clock e 0)
               = Some (clock e 0, Some t)
           \<and> r = [(''user_id'', JStr (uuid e)),
                  (''plan_id'', prop_of (JObj b) ''plan_id''),
                  (''start_date'', JStr (iso_string (clock e 0))),
                  (''end_date'', JStr (iso_string t)),
                  (''status'', JStr ''active'')]"
proof -
  have "calls (subscribe_B db e b) \<noteq> []" using assms by auto
  then obtain t where v: "truthy (prop_of (JObj b) ''plan_id'')"
    "truthy (opt_prop (prop_of (JObj b) ''customer_info'') ''fullname'')"
    "truthy (opt_prop (prop_of (JObj b) ''customer_info'') ''email'')"
    and tm: "subscription_term_B (tz e) (prop_of (JObj b) ''plan_id'') (clock e 0)
               = Some (clock e 0, Some t)"
    using subscribe_B_store_reached[of db e b] by auto
  have "r = [(''user_id'', JStr (uuid e)),
             (''plan_id'', prop_of (JObj b) ''plan_id''),
             (''start_date'', JStr (iso_string (clock e 0))),
             (''end_date'', JStr (iso_string t)),
             (''status'', JStr ''active'')]"
    using assms unfolding subscribe_B_reaches_store[OF v tm]
    by (rule subscribe_B_store_row)
  with tm show ?thesis by simp
qed

lemma subscription_term_A_later:
  assumes c: "subscription_term_A z p s = (s', Some t)"
  shows "s < t"
proof -
  have "setMonth z s (getMonth z s + 1) = Some t \<or> setMonth z s (getMonth z s + 2) = Some t
        \<or> setFullYear z s (getFullYear z s + 1) = Some t"
    using c by (auto simp: subscription_term_A_def Let_def split: if_splits)
  then show ?thesis
    using setMonth_later[of 1 z s t] setMonth_later[of 2 z s t] setFullYear_later[of z s t]
    by blast
qed

lemma subscription_term_B_later:
  assumes c: "subscription_term_B z p s = Some (s', Some t)"
  shows "s < t"
proof -
  have "setMonth z s (getMonth z s + 1) = Some t \<or> setMonth z s (getMonth z s + 2) = Some t
        \<or> setFullYear z s (getFullYear z s + 1) = Some t"
    using c by (auto simp: subscription_term_B_def Let_def split: if_splits)
  then show ?thesis
    using setMonth_later[of 1 z s t] setMonth_later[of 2 z s t] setFullYear_later[of z s t]
    by blast
qed

lemma subscribe_A_store_success_row:
  assumes "status (response (subscribe_A_store db r m)) = 200"
  shows "\<exists>x. m = Some x"
proof (cases m)
  case None
  with assms show ?thesis
    by (cases "db (Insert ''subscriptions'' r)")
      (simp_all add: subscribe_A_store_def subscribe_A_caught_def send_def Let_def)
qed simp

lemma subscribe_B_store_success_row:
  assumes "status (response (subscribe_B_store db r m s)) = 200"
  shows "\<exists>x. m = Some x"
proof (cases m)
  case None
  with assms show ?thesis
    by (cases "db (Insert ''subscriptions'' r)")
      (simp_all add: subscribe_B_store_def subscribe_B_caught_def send_def Let_def)
qed simp

lemma subscribe_A_store_message_fails:
  "calls (subscribe_A_store (failing_table ''messages'') r (Some x))
     = [Insert ''subscriptions'' r, Insert ''messages'' x]
   \<and> status (response (subscribe_A_store (failing_table ''messages'') r (Some x))) = 500
   \<and> persisted (failing_table ''messages'')
        (calls (subscribe_A_store (failing_table ''messages'') r (Some x)))
       = [(''subscriptions'', r)]"
  by (simp add: subscribe_A_store_def failing_table_def Let_def returned_error_def send_def
      accepted_def)

lemma subscribe_A_store_subscription_fails:
  "calls (subscribe_A_store (failing_table ''subscriptions'') r (Some x))
     = [Insert ''subscriptions'' r, Insert ''messages'' x]
   \<and> status (response (subscribe_A_store (failing_table ''subscriptions'') r (Some x))) = 500
   \<and> persisted (failing_table ''subscriptions'')
        (calls (subscribe_A_store (failing_table ''subscriptions'') r (Some x)))
       = [(''messages'', x)]"
  by (simp add: subscribe_A_store_def failing_table_def Let_def returned_error_def send_def
      accepted_def)

lemma subscribe_B_store_message_fails:
  "calls (subscribe_B_store (failing_table ''messages'') r (Some x) s)
     = [Insert ''subscriptions'' r, Insert ''messages'' x]
   \<and> status (response (subscribe_B_store (failing_table ''messages'') r (Some x) s)) = 500
   \<and> persisted (failing_table ''messages'')
        (calls (subscribe_B_store (failing_table ''messages'') r (Some x) s))
       = [(''subscriptions'', r)]"
  by (simp add: subscribe_B_store_def failing_table_def Let_def subscribe_B_caught_def send_def
      accepted_def)

section \<open>The example requests, evaluated\<close>

lemma example_subscribe_A:
  "subscribe_A db_ok example_env example_request =
     \<lparr>response = \<lparr>status = 200,
        body = JObj [(''success'', JBool True), (''saved_to_db'', JBool True)]\<rparr>,
      calls =
        [Insert ''subscriptions'' example_row_A,
         Insert ''messages''
           [(''user_id'', JUndefined),
            (''subject'', JStr ''New IPTV Subscription - a@b.com''),
            (''message'',
             JStr (''Name: A'' @ newline @ ''Email: a@b.com'' @ newline @ ''Phone: N/A''
                   @ newline @ ''Plan: monthly'' @ newline @ ''Payment: undefined''))]],
      logs = []\<rparr>"
  by code_simp

lemma example_subscribe_B:
  "subscribe_B db_ok example_env example_request =
     \<lparr>response = \<lparr>status = 200,
        body = JObj [(''success'', JBool True),
           (''subscription'',
            JObj [(''plan'', JStr ''monthly''),
                  (''start_date'', JStr ''2024-01-31T00:00:00.000Z''),
                  (''end_date'', JStr ''2024-03-02T00:00:00.000Z'')])]\<rparr>,
      calls =
        [Insert ''subscriptions'' example_row_B,
         Insert ''messages''
           [(''user_id'', JStr ''3b241101-e2bb-4255-8caf-4136c566a962''),
            (''subject'', JStr ''New IPTV Subscription''),
            (''message'',
             JStr (''Name: A'' @ newline @ ''Email: a@b.com'' @ newline @ ''Phone: N/A''
                   @ newline @ ''Plan: monthly''))]],
      logs = []\<rparr>"
  by code_simp

section \<open>How the two versions answer database errors\<close>

text \<open>
  The Supabase client reports a failure, of the database or of the network, by resolving
  the awaited call with an error object: no call of either version asks it to throw
  (\<^verbatim>\<open>throwOnError\<close>). Were a call to throw all the same, the catch blocks of \<^verbatim>\<open>GET /plans\<close>,
  \<^verbatim>\<open>POST /subscribe\<close> and \<^verbatim>\<open>GET /messages\<close> in \<^verbatim>\<open>index.js\<close> would send the message of what
  they caught; the other catch blocks send a fixed text.
\<close>

lemma index_js_raised_error:
  assumes "db (Select ''plans'' ''id, name, price, features'' ''price'' True) = ErrorThrown err"
  shows "response (plans_A db e) =
           \<lparr>status = 500, body = JObj [(''error'', JStr (err_message err))]\<rparr>
         \<and> logs (plans_A db e) = []"
  using assms by (simp add: plans_A_def send_def)









text \<open>Whatever makes \<^verbatim>\<open>part_000\<close> answer 500, the body is the fixed one of the handler.\<close>

lemma part_000_error_responses:
  "status (response (plans_B db e)) = 500 \<longrightarrow>
     body (response (plans_B db e)) =
       JObj [(''success'', JBool False), (''error'', JStr ''Unable to fetch plans'')]"
  "status (response (contact_B db e b)) = 500 \<longrightarrow>
     body (response (contact_B db e b)) =
       JObj [(''success'', JBool False), (''error'', JStr ''Unable to send message'')]"
  by (simp_all add: plans_B_def contact_B_def Let_def send_def plans_B_caught_def
      contact_B_caught_def split: db_reply.splits del: prop_of.simps)

lemma subscribe_B_store_error_response:
  "status (response (subscribe_B_store db r m s)) = 500 \<longrightarrow>
     body (response (subscribe_B_store db r m s)) =
       JObj [(''success'', JBool False), (''error'', JStr ''Subscription failed'')]"
proof (cases m)
  case None
  then show ?thesis
    by (cases "db (Insert ''subscriptions'' r)")
      (simp_all add: subscribe_B_store_def subscribe_B_caught_def send_def Let_def)
next
  case (Some x)
  then show ?thesis
    by (cases "db (Insert ''subscriptions'' r)"; cases "db (Insert ''messages'' x)")
      (simp_all add: subscribe_B_store_def subscribe_B_caught_def send_def Let_def)
qed

lemma part_000_subscribe_error_response:
  "status (response (subscribe_B db e b)) = 500 \<longrightarrow>
     body (response (subscribe_B db e b)) =
       JObj [(''success'', JBool False), (''error'', JStr ''Subscription failed'')]"
  using subscribe_B_store_error_response
  by (simp add: subscribe_B_def Let_def send_def subscribe_B_caught_def
      split: option.splits prod.splits del: prop_of.simps)

section \<open>The subscription term\<close>

text \<open>
  C1. For a subscribe request whose \<^verbatim>\<open>plan_id\<close> is \<^verbatim>\<open>"monthly"\<close>, \<^verbatim>\<open>"2months"\<close> or
  \<^verbatim>\<open>"annual"\<close>, the term computed by either version starts at the current time, and its
  end date is the start date moved by one calendar month, two calendar months or one
  calendar year under the rollover rule of the date primitive. With \<open>y\<close>, \<open>m\<close>, \<open>d\<close> the
  local year, month and day of the month of the start date, the end date is the local
  time \<open>one_month\<close>, \<open>two_months\<close> or \<open>one_year\<close>, converted to UTC and clipped to the
  range of time values; that local time has the time of day of the start date, and its
  calendar date is \<open>rollover y (m + 1) d\<close>, \<open>rollover y (m + 2) d\<close> or
  \<open>rollover (y + 1) m d\<close>: the same day of the month one month, two months or one year
  later, running on into the following month when that month is too short.
\<close>

theorem subscription_term_of_plan:
  "(let lt = local_time z now; y = year_from_time lt; m = month_from_time lt;
        d = date_from_time lt; tm = time_within_day lt;
        one_month = make_date (make_day y (m + 1) d) tm;
        two_months = make_date (make_day y (m + 2) d) tm;
        one_year = make_date (make_day (y + 1) m d) tm
    in subscription_term_A z (JStr ''monthly'') now = (now, time_clip (utc z one_month))
     \<and> subscription_term_A z (JStr ''2months'') now = (now, time_clip (utc z two_months))
     \<and> subscription_term_A z (JStr ''annual'') now = (now, time_clip (utc z one_year))
     \<and> subscription_term_B z (JStr ''monthly'') now = Some (now, time_clip (utc z one_month))
     \<and> subscription_term_B z (JStr ''2months'') now = Some (now, time_clip (utc z two_months))
     \<and> subscription_term_B z (JStr ''annual'') now = Some (now, time_clip (utc z one_year))
     \<and> (year_from_time one_month, month_from_time one_month, date_from_time one_month)
         = rollover y (m + 1) d
     \<and> (year_from_time two_months, month_from_time two_months, date_from_time two_months)
         = rollover y (m + 2) d
     \<and> (year_from_time one_year, month_from_time one_year, date_from_time one_year)
         = rollover (y + 1) m d
     \<and> time_within_day one_month = tm
     \<and> time_within_day two_months = tm
     \<and> time_within_day one_year = tm)"
proof -
  define lt where "lt = local_time z now"
  note f1 = moved_date_fields[of "year_from_time lt" "month_from_time lt + 1" lt]
    and f2 = moved_date_fields[of "year_from_time lt" "month_from_time lt + 2" lt]
    and f3 = moved_date_fields[of "year_from_time lt + 1" "month_from_time lt" lt]
  have terms:
    "subscription_term_A z (JStr ''monthly'') now
       = (now, time_clip (utc z (make_date (make_day (year_from_time lt) (month_from_time lt + 1)
            (date_from_time lt)) (time_within_day lt))))"
    "subscription_term_A z (JStr ''2months'') now
       = (now, time_clip (utc z (make_date (make_day (year_from_time lt) (month_from_time lt + 2)
            (date_from_time lt)) (time_within_day lt))))"
    "subscription_term_A z (JStr ''annual'') now
       = (now, time_clip (utc z (make_date (make_day (year_from_time lt + 1) (month_from_time lt)
            (date_from_time lt)) (time_within_day lt))))"
    "subscription_term_B z (JStr ''monthly'') now
       = Some (now, time_clip (utc z (make_date (make_day (year_from_time lt)
            (month_from_time lt + 1) (date_from_time lt)) (time_within_day lt))))"
    "subscription_term_B z (JStr ''2months'') now
       = Some (now, time_clip (utc z (make_date (make_day (year_from_time lt)
            (month_from_time lt + 2) (date_from_time lt)) (time_within_day lt))))"
    "subscription_term_B z (JStr ''annual'') now
       = Some (now, time_clip (utc z (make_date (make_day (year_from_time lt + 1)
            (month_from_time lt) (date_from_time lt)) (time_within_day lt))))"
    by (simp_all add: subscription_term_A_def subscription_term_B_def setMonth_def
        setFullYear_def getMonth_def getFullYear_def Let_def lt_def)
  show ?thesis
    unfolding Let_def lt_def[symmetric] using terms f1 f2 f3 by simp
qed

text \<open>
  The example of the specification: a monthly plan taken on 2024-01-31 ends on
  2024-03-02, since 2024-02-31 runs on into March.
\<close>

lemma monthly_term_on_january_31:
  "subscription_term_A (fixed_zone 0) (JStr ''monthly'') 1706659200000
     = (1706659200000, Some 1709337600000)
   \<and> iso_string 1706659200000 = ''2024-01-31T00:00:00.000Z''
   \<and> iso_string 1709337600000 = ''2024-03-02T00:00:00.000Z''"
  by code_simp

text \<open>
  C9, as amended. Every subscription row that either version hands to the database has
  an end date strictly after its start date, and the pair is a function of the row's
  \<^verbatim>\<open>plan_id\<close>, of its start date and of the time zone of the server: the term that the
  version computes from these three. The dates are written as ISO strings; \<open>s\<close> and \<open>t\<close>
  are the instants they print.
\<close>

theorem subscription_end_after_start:
  "(Insert ''subscriptions'' r \<in> set (calls (subscribe_A db e b)) \<longrightarrow>
           (\<exists>p s t. map_of r ''plan_id'' = Some p
              \<and> map_of r ''start_date'' = Some (JStr (iso_string s))
              \<and> map_of r ''end_date'' = Some (JStr (iso_string t))
              \<and> s < t
              \<and> subscription_term_A (tz e) p s = (s, Some t)))
       \<and> (Insert ''subscriptions'' r \<in> set (calls (subscribe_B db e b)) \<longrightarrow>
           (\<exists>p s t. map_of r ''plan_id'' = Some p
              \<and> map_of r ''start_date'' = Some (JStr (iso_string s))
              \<and> map_of r ''end_date'' = Some (JStr (iso_string t))
              \<and> s < t
              \<and> subscription_term_B (tz e) p s = Some (s, Some t)))"
proof (intro conjI impI)
  assume "Insert ''subscriptions'' r \<in> set (calls (subscribe_A db e b))"
  from subscribe_A_subscription_row[OF this] obtain t where
    c: "subscription_term_A (tz e) (prop_of (JObj b) ''plan_id'') (clock e 0) = (clock e 0, Some t)"
    and r: "r = [(''user_id'', prop_of (JObj b) ''user_id''),
                 (''plan_id'', prop_of (JObj b) ''plan_id''),
                 (''start_date'', JStr (iso_string (clock e 0))),
                 (''end_date'', JStr (iso_string t)),
                 (''status'', JStr ''active'')]"
    by (elim exE conjE)
  have "clock e 0 < t" using c by (rule subscription_term_A_later)
  with c show "\<exists>p s t. map_of r ''plan_id'' = Some p
              \<and> map_of r ''start_date'' = Some (JStr (iso_string s))
              \<and> map_of r ''end_date'' = Some (JStr (iso_string t))
              \<and> s < t
              \<and> subscription_term_A (tz e) p s = (s, Some t)"
    unfolding r
    by (intro exI[of _ "prop_of (JObj b) ''plan_id''"] exI[of _ "clock e 0"] exI[of _ t])
      (simp del: prop_of.simps)
next
  assume "Insert ''subscriptions'' r \<in> set (calls (subscribe_B db e b))"
  from subscribe_B_subscription_row[OF this] obtain t where
    c: "subscription_term_B (tz e) (prop_of (JObj b) ''plan_id'') (clock e 0)
          = Some (clock e 0, Some t)"
    and r: "r = [(''user_id'', JStr (uuid e)),
                 (''plan_id'', prop_of (JObj b) ''plan_id''),
                 (''start_date'', JStr (iso_string (clock e 0))),
                 (''end_date'', JStr (iso_string t)),
                 (''status'', JStr ''active'')]"
    by (elim exE conjE)
  have "clock e 0 < t" using c by (rule subscription_term_B_later)
  with c show "\<exists>p s t. map_of r ''plan_id'' = Some p
              \<and> map_of r ''start_date'' = Some (JStr (iso_string s))
              \<and> map_of r ''end_date'' = Some (JStr (iso_string t))
              \<and> s < t
              \<and> subscription_term_B (tz e) p s = Some (s, Some t)"
    unfolding r
    by (intro exI[of _ "prop_of (JObj b) ''plan_id''"] exI[of _ "clock e 0"] exI[of _ t])
      (simp del: prop_of.simps)
qed

theorem subscription_end_after_start_witness:
  "Insert ''subscriptions'' example_row_A
        \<in> set (calls (subscribe_A db_ok example_env example_request))
   \<and> (\<exists>p s t. map_of example_row_A ''plan_id'' = Some p
          \<and> map_of example_row_A ''start_date'' = Some (JStr (iso_string s))
          \<and> map_of example_row_A ''end_date'' = Some (JStr (iso_string t))
          \<and> s < t
          \<and> subscription_term_A (tz example_env) p s = (s, Some t))
   \<and> Insert ''subscriptions'' example_row_B
        \<in> set (calls (subscribe_B db_ok example_env example_request))
   \<and> (\<exists>p s t. map_of example_row_B ''plan_id'' = Some p
          \<and> map_of example_row_B ''start_date'' = Some (JStr (iso_string s))
          \<and> map_of example_row_B ''end_date'' = Some (JStr (iso_string t))
          \<and> s < t
          \<and> subscription_term_B (tz example_env) p s = Some (s, Some t))"
proof -
  have a: "Insert ''subscriptions'' example_row_A
        \<in> set (calls (subscribe_A db_ok example_env example_request))"
    by (simp add: example_subscribe_A)
  have b: "Insert ''subscriptions'' example_row_B
        \<in> set (calls (subscribe_B db_ok example_env example_request))"
    by (simp add: example_subscribe_B)
  from subscription_end_after_start[of example_row_A db_ok example_env example_request]
    subscription_end_after_start[of example_row_B db_ok example_env example_request]
    a b
  show ?thesis by blast
qed

text \<open>
  C9 as stated fails: the pair is not a function of \<^verbatim>\<open>plan_id\<close> and the start date alone.
  For the plan of two months and the start date 2023-12-31T23:30:00.000Z, a server on UTC
  writes the end date 2024-03-02T23:30:00.000Z (locally the year has not turned, and
  February 31 runs on into March), and a server fourteen hours east of UTC writes
  2024-02-29T23:30:00.000Z (locally it is January 1, and the end is March 1), in both
  versions.
\<close>

theorem subscription_term_depends_on_zone:
  "Insert ''subscriptions''
     [(''user_id'', JUndefined), (''plan_id'', JStr ''2months''),
      (''start_date'', JStr ''2023-12-31T23:30:00.000Z''),
      (''end_date'', JStr ''2024-03-02T23:30:00.000Z''),
      (''status'', JStr ''active'')]
     \<in> set (calls (subscribe_A db_ok utc_env two_months_request))
   \<and> Insert ''subscriptions''
     [(''user_id'', JUndefined), (''plan_id'', JStr ''2months''),
      (''start_date'', JStr ''2023-12-31T23:30:00.000Z''),
      (''end_date'', JStr ''2024-02-29T23:30:00.000Z''),
      (''status'', JStr ''active'')]
     \<in> set (calls (subscribe_A db_ok east_env two_months_request))
   \<and> Insert ''subscriptions''
     [(''user_id'', JStr ''3b241101-e2bb-4255-8caf-4136c566a962''), (''plan_id'', JStr ''2months''),
      (''start_date'', JStr ''2023-12-31T23:30:00.000Z''),
      (''end_date'', JStr ''2024-03-02T23:30:00.000Z''),
      (''status'', JStr ''active'')]
     \<in> set (calls (subscribe_B db_ok utc_env two_months_request))
   \<and> Insert ''subscriptions''
     [(''user_id'', JStr ''3b241101-e2bb-4255-8caf-4136c566a962''), (''plan_id'', JStr ''2months''),
      (''start_date'', JStr ''2023-12-31T23:30:00.000Z''),
      (''end_date'', JStr ''2024-02-29T23:30:00.000Z''),
      (''status'', JStr ''active'')]
     \<in> set (calls (subscribe_B db_ok east_env two_months_request))"
  by code_simp

section \<open>Requests that the subscribe handlers reject\<close>

text \<open>
  C2. For a subscribe request whose \<^verbatim>\<open>plan_id\<close> is none of \<^verbatim>\<open>"monthly"\<close>, \<^verbatim>\<open>"2months"\<close>,
  \<^verbatim>\<open>"annual"\<close>: \<^verbatim>\<open>part_000\<close> answers 400 without any database call, whatever else the
  request holds; \<^verbatim>\<open>index.js\<close> computes the term that it computes for \<^verbatim>\<open>"monthly"\<close>, and
  a request that reaches that computation (one with a \<^verbatim>\<open>customer_info\<close>) is followed by
  the insert of the subscription with that term and the \<^verbatim>\<open>plan_id\<close> as sent. The end
  date \<open>t\<close> is a valid date for every clock reading that is not within some months of the
  end of the range of time values (\<open>monthly_end_valid\<close>).
\<close>

theorem unknown_plan_handling:
  assumes "prop_of (JObj b) ''plan_id'' \<noteq> JStr ''monthly''"
    and "prop_of (JObj b) ''plan_id'' \<noteq> JStr ''2months''"
    and "prop_of (JObj b) ''plan_id'' \<noteq> JStr ''annual''"
  shows "status (response (subscribe_B db e b)) = 400 \<and> calls (subscribe_B db e b) = []
    \<and> subscription_term_A (tz e) (prop_of (JObj b) ''plan_id'') (clock e 0)
        = subscription_term_A (tz e) (JStr ''monthly'') (clock e 0)
    \<and> (truthy (prop_of (JObj b) ''customer_info'')
        \<and> snd (subscription_term_A (tz e) (JStr ''monthly'') (clock e 0)) = Some t \<longrightarrow>
          Insert ''subscriptions''
            [(''user_id'', prop_of (JObj b) ''user_id''),
             (''plan_id'', prop_of (JObj b) ''plan_id''),
             (''start_date'', JStr (iso_string (clock e 0))),
             (''end_date'', JStr (iso_string t)),
             (''status'', JStr ''active'')]
          \<in> set (calls (subscribe_A db e b)))"
proof (intro conjI impI)
  show "status (response (subscribe_B db e b)) = 400"
    using assms
    by (simp add: subscribe_B_def subscription_term_B_def Let_def send_def del: prop_of.simps)
  show "calls (subscribe_B db e b) = []"
    using assms
    by (simp add: subscribe_B_def subscription_term_B_def Let_def send_def del: prop_of.simps)
  show T: "subscription_term_A (tz e) (prop_of (JObj b) ''plan_id'') (clock e 0)
        = subscription_term_A (tz e) (JStr ''monthly'') (clock e 0)"
    using assms by (simp add: subscription_term_A_def Let_def del: prop_of.simps)
  assume a: "truthy (prop_of (JObj b) ''customer_info'')
        \<and> snd (subscription_term_A (tz e) (JStr ''monthly'') (clock e 0)) = Some t"
  then have c: "truthy (prop_of (JObj b) ''customer_info'')" by (rule conjunct1)
  have tm: "subscription_term_A (tz e) (prop_of (JObj b) ''plan_id'') (clock e 0)
              = (clock e 0, Some t)"
    using a unfolding T by (simp add: subscription_term_A_def Let_def del: prop_of.simps)
  show "Insert ''subscriptions''
            [(''user_id'', prop_of (JObj b) ''user_id''),
             (''plan_id'', prop_of (JObj b) ''plan_id''),
             (''start_date'', JStr (iso_string (clock e 0))),
             (''end_date'', JStr (iso_string t)),
             (''status'', JStr ''active'')]
          \<in> set (calls (subscribe_A db e b))"
    unfolding subscribe_A_reaches_store[OF c tm] by (rule subscribe_A_store_first)
qed

theorem unknown_plan_handling_witness:
  "prop_of (JObj weekly_request) ''plan_id'' \<noteq> JStr ''monthly''
   \<and> prop_of (JObj weekly_request) ''plan_id'' \<noteq> JStr ''2months''
   \<and> prop_of (JObj weekly_request) ''plan_id'' \<noteq> JStr ''annual''
   \<and> truthy (prop_of (JObj weekly_request) ''customer_info'')
   \<and> snd (subscription_term_A (tz example_env) (JStr ''monthly'') (clock example_env 0))
        = Some 1709337600000
   \<and> status (response (subscribe_B db_ok example_env weekly_request)) = 400
   \<and> calls (subscribe_B db_ok example_env weekly_request) = []
   \<and> Insert ''subscriptions''
        [(''user_id'', prop_of (JObj weekly_request) ''user_id''),
         (''plan_id'', prop_of (JObj weekly_request) ''plan_id''),
         (''start_date'', JStr (iso_string (clock example_env 0))),
         (''end_date'', JStr (iso_string 1709337600000)),
         (''status'', JStr ''active'')]
       \<in> set (calls (subscribe_A db_ok example_env weekly_request))"
proof -
  have h1: "prop_of (JObj weekly_request) ''plan_id'' \<noteq> JStr ''monthly''"
    and h2: "prop_of (JObj weekly_request) ''plan_id'' \<noteq> JStr ''2months''"
    and h3: "prop_of (JObj weekly_request) ''plan_id'' \<noteq> JStr ''annual''"
    and h4: "truthy (prop_of (JObj weekly_request) ''customer_info'')"
    by (simp_all add: weekly_request_def)
  have h5: "snd (subscription_term_A (tz example_env) (JStr ''monthly'') (clock example_env 0))
        = Some 1709337600000"
    by code_simp
  from unknown_plan_handling[OF h1 h2 h3, of db_ok example_env 1709337600000] h1 h2 h3 h4 h5
  show ?thesis by blast
qed

text \<open>
  C3, as amended. \<^verbatim>\<open>part_000\<close> answers 400, with no database call, every subscribe
  request that lacks a truthy \<^verbatim>\<open>plan_id\<close>, \<^verbatim>\<open>customer_info.fullname\<close> or
  \<^verbatim>\<open>customer_info.email\<close>; \<^verbatim>\<open>index.js\<close> answers 400, with no database call, every
  subscribe request that lacks a truthy \<^verbatim>\<open>customer_info\<close>.
\<close>

theorem subscribe_rejects_missing_fields:
  "(\<not> truthy (prop_of (JObj b) ''plan_id'')
      \<or> \<not> truthy (opt_prop (prop_of (JObj b) ''customer_info'') ''fullname'')
      \<or> \<not> truthy (opt_prop (prop_of (JObj b) ''customer_info'') ''email'')
     \<longrightarrow> status (response (subscribe_B db e b)) = 400 \<and> calls (subscribe_B db e b) = [])
   \<and> (\<not> truthy (prop_of (JObj b) ''customer_info'')
     \<longrightarrow> status (response (subscribe_A db e b)) = 400 \<and> calls (subscribe_A db e b) = [])"
  by (simp add: subscribe_A_def subscribe_B_def Let_def send_def del: prop_of.simps)

theorem subscribe_rejects_missing_fields_witness:
  "\<not> truthy (opt_prop (prop_of (JObj [(''plan_id'', JStr ''monthly''),
                 (''customer_info'', JObj [(''fullname'', JStr ''A'')])]) ''customer_info'') ''email'')
   \<and> status (response (subscribe_B db_ok example_env
         [(''plan_id'', JStr ''monthly''),
          (''customer_info'', JObj [(''fullname'', JStr ''A'')])])) = 400
   \<and> calls (subscribe_B db_ok example_env
         [(''plan_id'', JStr ''monthly''),
          (''customer_info'', JObj [(''fullname'', JStr ''A'')])]) = []
   \<and> \<not> truthy (prop_of (JObj [(''plan_id'', JStr ''monthly'')]) ''customer_info'')
   \<and> status (response (subscribe_A db_ok example_env [(''plan_id'', JStr ''monthly'')])) = 400
   \<and> calls (subscribe_A db_ok example_env [(''plan_id'', JStr ''monthly'')]) = []"
proof -
  have h1: "\<not> truthy (opt_prop (prop_of (JObj [(''plan_id'', JStr ''monthly''),
                 (''customer_info'', JObj [(''fullname'', JStr ''A'')])]) ''customer_info'') ''email'')"
    by (simp add: opt_prop_def)
  have h2: "\<not> truthy (prop_of (JObj [(''plan_id'', JStr ''monthly'')]) ''customer_info'')"
    by simp
  from subscribe_rejects_missing_fields[of "[(''plan_id'', JStr ''monthly''),
          (''customer_info'', JObj [(''fullname'', JStr ''A'')])]" db_ok example_env]
    subscribe_rejects_missing_fields[of "[(''plan_id'', JStr ''monthly'')]" db_ok example_env]
    h1 h2
  show ?thesis by blast
qed

text \<open>
  C3 as stated fails on \<^verbatim>\<open>index.js\<close>: a request with an empty \<^verbatim>\<open>customer_info\<close> object and
  no \<^verbatim>\<open>plan_id\<close> is answered 200 after two database calls.
\<close>

theorem subscribe_A_accepts_missing_fields:
  "status (response (subscribe_A db_ok example_env [(''customer_info'', JObj [])])) = 200
   \<and> length (calls (subscribe_A db_ok example_env [(''customer_info'', JObj [])])) = 2"
  by code_simp

section \<open>What the subscribe handlers write and answer\<close>

text \<open>
  C5, as amended. A subscribe request that \<^verbatim>\<open>part_000\<close> answers 200 gets the body
  \<^verbatim>\<open>{success: true, subscription: {plan, start_date, end_date}}\<close> with the requested plan
  and the computed term; one that \<^verbatim>\<open>index.js\<close> answers 200 gets the body
  \<^verbatim>\<open>{success: true, saved_to_db: true}\<close>.
\<close>

theorem subscribe_success_body:
  "(status (response (subscribe_B db e b)) = 200 \<longrightarrow>
      (\<exists>t. subscription_term_B (tz e) (prop_of (JObj b) ''plan_id'') (clock e 0)
               = Some (clock e 0, Some t)
         \<and> body (response (subscribe_B db e b)) =
               JObj [(''success'', JBool True),
                     (''subscription'',
                      JObj [(''plan'', prop_of (JObj b) ''plan_id''),
                            (''start_date'', JStr (iso_string (clock e 0))),
                            (''end_date'', JStr (iso_string t))])]))
   \<and> (status (response (subscribe_A db e b)) = 200 \<longrightarrow>
        body (response (subscribe_A db e b)) =
           JObj [(''success'', JBool True), (''saved_to_db'', JBool True)])"
proof (intro conjI impI)
  assume s: "status (response (subscribe_B db e b)) = 200"
  then obtain t where v: "truthy (prop_of (JObj b) ''plan_id'')"
    "truthy (opt_prop (prop_of (JObj b) ''customer_info'') ''fullname'')"
    "truthy (opt_prop (prop_of (JObj b) ''customer_info'') ''email'')"
    and tm: "subscription_term_B (tz e) (prop_of (JObj b) ''plan_id'') (clock e 0)
               = Some (clock e 0, Some t)"
    using subscribe_B_store_reached[of db e b] by auto
  have "body (response (subscribe_B db e b)) =
               JObj [(''success'', JBool True),
                     (''subscription'',
                      JObj [(''plan'', prop_of (JObj b) ''plan_id''),
                            (''start_date'', JStr (iso_string (clock e 0))),
                            (''end_date'', JStr (iso_string t))])]"
    using s unfolding subscribe_B_reaches_store[OF v tm] by (rule subscribe_B_store_success)
  with tm show "\<exists>t. subscription_term_B (tz e) (prop_of (JObj b) ''plan_id'') (clock e 0)
               = Some (clock e 0, Some t)
         \<and> body (response (subscribe_B db e b)) =
               JObj [(''success'', JBool True),
                     (''subscription'',
                      JObj [(''plan'', prop_of (JObj b) ''plan_id''),
                            (''start_date'', JStr (iso_string (clock e 0))),
                            (''end_date'', JStr (iso_string t))])]"
    by blast
next
  assume s: "status (response (subscribe_A db e b)) = 200"
  then obtain t where c: "truthy (prop_of (JObj b) ''customer_info'')"
    and tm: "subscription_term_A (tz e) (prop_of (JObj b) ''plan_id'') (clock e 0)
               = (clock e 0, Some t)"
    using subscribe_A_store_reached[of db e b] by auto
  show "body (response (subscribe_A db e b)) =
           JObj [(''success'', JBool True), (''saved_to_db'', JBool True)]"
    using s unfolding subscribe_A_reaches_store[OF c tm] by (rule subscribe_A_store_success)
qed

theorem subscribe_success_body_witness:
  "status (response (subscribe_B db_ok example_env example_request)) = 200
   \<and> (\<exists>t. subscription_term_B (tz example_env) (prop_of (JObj example_request) ''plan_id'')
              (clock example_env 0) = Some (clock example_env 0, Some t)
         \<and> body (response (subscribe_B db_ok example_env example_request)) =
               JObj [(''success'', JBool True),
                     (''subscription'',
                      JObj [(''plan'', prop_of (JObj example_request) ''plan_id''),
                            (''start_date'', JStr (iso_string (clock example_env 0))),
                            (''end_date'', JStr (iso_string t))])])
   \<and> status (response (subscribe_A db_ok example_env example_request)) = 200
   \<and> body (response (subscribe_A db_ok example_env example_request)) =
           JObj [(''success'', JBool True), (''saved_to_db'', JBool True)]"
proof -
  have b: "status (response (subscribe_B db_ok example_env example_request)) = 200"
    by (simp add: example_subscribe_B)
  have a: "status (response (subscribe_A db_ok example_env example_request)) = 200"
    by (simp add: example_subscribe_A)
  from subscribe_success_body[of db_ok example_env example_request] a b
  show ?thesis by blast
qed

text \<open>
  C5 as stated fails on \<^verbatim>\<open>index.js\<close>: the body of a successful response has no
  \<^verbatim>\<open>subscription\<close>.
\<close>

theorem subscribe_A_success_without_subscription:
  "status (response (subscribe_A db_ok example_env example_request)) = 200
   \<and> prop_of (body (response (subscribe_A db_ok example_env example_request))) ''subscription''
       = JUndefined"
  by (simp add: example_subscribe_A)

text \<open>
  C6, as amended. Every subscription row that either version hands to the database has
  the status \<^verbatim>\<open>"active"\<close>. Its \<^verbatim>\<open>user_id\<close> is the value of \<^verbatim>\<open>crypto.randomUUID()\<close> in
  \<^verbatim>\<open>part_000\<close>, and the \<^verbatim>\<open>user_id\<close> of the request body in \<^verbatim>\<open>index.js\<close>.
\<close>

theorem subscription_user_id_and_status:
  "(Insert ''subscriptions'' r \<in> set (calls (subscribe_B db e b)) \<longrightarrow>
      map_of r ''user_id'' = Some (JStr (uuid e)) \<and> map_of r ''status'' = Some (JStr ''active''))
   \<and> (Insert ''subscriptions'' r \<in> set (calls (subscribe_A db e b)) \<longrightarrow>
      map_of r ''user_id'' = Some (prop_of (JObj b) ''user_id'')
      \<and> map_of r ''status'' = Some (JStr ''active''))"
proof (intro conjI impI)
  assume "Insert ''subscriptions'' r \<in> set (calls (subscribe_B db e b))"
  from subscribe_B_subscription_row[OF this]
  show "map_of r ''user_id'' = Some (JStr (uuid e))" and "map_of r ''status'' = Some (JStr ''active'')"
    by auto
next
  assume "Insert ''subscriptions'' r \<in> set (calls (subscribe_A db e b))"
  from subscribe_A_subscription_row[OF this]
  show "map_of r ''user_id'' = Some (prop_of (JObj b) ''user_id'')"
    and "map_of r ''status'' = Some (JStr ''active'')"
    by (auto simp del: prop_of.simps)
qed

theorem subscription_user_id_and_status_witness:
  "Insert ''subscriptions'' example_row_B
      \<in> set (calls (subscribe_B db_ok example_env example_request))
   \<and> map_of example_row_B ''user_id'' = Some (JStr (uuid example_env))
   \<and> map_of example_row_B ''status'' = Some (JStr ''active'')
   \<and> Insert ''subscriptions'' example_row_A
      \<in> set (calls (subscribe_A db_ok example_env example_request))
   \<and> map_of example_row_A ''user_id'' = Some (prop_of (JObj example_request) ''user_id'')
   \<and> map_of example_row_A ''status'' = Some (JStr ''active'')"
proof -
  have b: "Insert ''subscriptions'' example_row_B
      \<in> set (calls (subscribe_B db_ok example_env example_request))"
    by (simp add: example_subscribe_B)
  have a: "Insert ''subscriptions'' example_row_A
      \<in> set (calls (subscribe_A db_ok example_env example_request))"
    by (simp add: example_subscribe_A)
  from subscription_user_id_and_status[of example_row_B db_ok example_env example_request]
    subscription_user_id_and_status[of example_row_A db_ok example_env example_request] a b
  show ?thesis by blast
qed

text \<open>
  C6 as stated fails on \<^verbatim>\<open>index.js\<close>: the \<^verbatim>\<open>user_id\<close> of the row is the one that the
  caller sent.
\<close>

theorem subscribe_A_copies_user_id:
  "Insert ''subscriptions''
     [(''user_id'', JStr ''chosen-by-the-caller''), (''plan_id'', JStr ''monthly''),
      (''start_date'', JStr ''2024-01-31T00:00:00.000Z''),
      (''end_date'', JStr ''2024-03-02T00:00:00.000Z''),
      (''status'', JStr ''active'')]
   \<in> set (calls (subscribe_A db_ok example_env
              ((''user_id'', JStr ''chosen-by-the-caller'') # example_request)))"
  by code_simp

text \<open>
  C8. The two inserts of the subscribe flow are not atomic. For every request that
  succeeds when the database accepts every call, there is a database that fails one
  insert only, on which the handler answers 500 and the other row stays written: the
  subscription without its message in both versions, and in \<^verbatim>\<open>index.js\<close>, which issues
  the second insert whatever the first returned, also the message without its
  subscription.
\<close>

theorem subscribe_inserts_not_atomic:
  "(status (response (subscribe_A db_ok e b)) = 200 \<longrightarrow>
      (\<exists>sub msg.
          calls (subscribe_A (failing_table ''messages'') e b)
            = [Insert ''subscriptions'' sub, Insert ''messages'' msg]
        \<and> status (response (subscribe_A (failing_table ''messages'') e b)) = 500
        \<and> persisted (failing_table ''messages'')
             (calls (subscribe_A (failing_table ''messages'') e b)) = [(''subscriptions'', sub)]
        \<and> calls (subscribe_A (failing_table ''subscriptions'') e b)
            = [Insert ''subscriptions'' sub, Insert ''messages'' msg]
        \<and> status (response (subscribe_A (failing_table ''subscriptions'') e b)) = 500
        \<and> persisted (failing_table ''subscriptions'')
             (calls (subscribe_A (failing_table ''subscriptions'') e b)) = [(''messages'', msg)]))
   \<and> (status (response (subscribe_B db_ok e b)) = 200 \<longrightarrow>
      (\<exists>sub msg.
          calls (subscribe_B (failing_table ''messages'') e b)
            = [Insert ''subscriptions'' sub, Insert ''messages'' msg]
        \<and> status (response (subscribe_B (failing_table ''messages'') e b)) = 500
        \<and> persisted (failing_table ''messages'')
             (calls (subscribe_B (failing_table ''messages'') e b)) = [(''subscriptions'', sub)]))"
proof (intro conjI impI)
  assume s: "status (response (subscribe_A db_ok e b)) = 200"
  then obtain t where c: "truthy (prop_of (JObj b) ''customer_info'')"
    and tm: "subscription_term_A (tz e) (prop_of (JObj b) ''plan_id'') (clock e 0)
               = (clock e 0, Some t)"
    using subscribe_A_store_reached[of db_ok e b] by auto
  note st = subscribe_A_reaches_store[OF c tm]
  from s obtain x where x: "subscription_message_A (number_text e) (prop_of (JObj b) ''user_id'')
      (prop_of (JObj b) ''plan_id'') (prop_of (JObj b) ''payment_method'')
      (prop_of (JObj b) ''customer_info'') = Some x"
    unfolding st using subscribe_A_store_success_row by blast
  show "\<exists>sub msg.
          calls (subscribe_A (failing_table ''messages'') e b)
            = [Insert ''subscriptions'' sub, Insert ''messages'' msg]
        \<and> status (response (subscribe_A (failing_table ''messages'') e b)) = 500
        \<and> persisted (failing_table ''messages'')
             (calls (subscribe_A (failing_table ''messages'') e b)) = [(''subscriptions'', sub)]
        \<and> calls (subscribe_A (failing_table ''subscriptions'') e b)
            = [Insert ''subscriptions'' sub, Insert ''messages'' msg]
        \<and> status (response (subscribe_A (failing_table ''subscriptions'') e b)) = 500
        \<and> persisted (failing_table ''subscriptions'')
             (calls (subscribe_A (failing_table ''subscriptions'') e b)) = [(''messages'', msg)]"
    unfolding st x
    using subscribe_A_store_message_fails subscribe_A_store_subscription_fails by blast
next
  assume s: "status (response (subscribe_B db_ok e b)) = 200"
  then obtain t where v: "truthy (prop_of (JObj b) ''plan_id'')"
    "truthy (opt_prop (prop_of (JObj b) ''customer_info'') ''fullname'')"
    "truthy (opt_prop (prop_of (JObj b) ''customer_info'') ''email'')"
    and tm: "subscription_term_B (tz e) (prop_of (JObj b) ''plan_id'') (clock e 0)
               = Some (clock e 0, Some t)"
    using subscribe_B_store_reached[of db_ok e b] by auto
  note st = subscribe_B_reaches_store[OF v tm]
  from s obtain x where x: "subscription_message_B (number_text e) (JStr (uuid e))
      (prop_of (JObj b) ''plan_id'') (prop_of (JObj b) ''customer_info'') = Some x"
    unfolding st using subscribe_B_store_success_row by blast
  show "\<exists>sub msg.
          calls (subscribe_B (failing_table ''messages'') e b)
            = [Insert ''subscriptions'' sub, Insert ''messages'' msg]
        \<and> status (response (subscribe_B (failing_table ''messages'') e b)) = 500
        \<and> persisted (failing_table ''messages'')
             (calls (subscribe_B (failing_table ''messages'') e b)) = [(''subscriptions'', sub)]"
    unfolding st x
    using subscribe_B_store_message_fails by blast
qed

theorem subscribe_inserts_not_atomic_witness:
  "status (response (subscribe_A db_ok example_env example_request)) = 200
   \<and> status (response (subscribe_B db_ok example_env example_request)) = 200
   \<and> (\<exists>sub msg.
          calls (subscribe_A (failing_table ''messages'') example_env example_request)
            = [Insert ''subscriptions'' sub, Insert ''messages'' msg]
        \<and> status (response (subscribe_A (failing_table ''messages'') example_env
                               example_request)) = 500
        \<and> persisted (failing_table ''messages'')
             (calls (subscribe_A (failing_table ''messages'') example_env example_request))
            = [(''subscriptions'', sub)]
        \<and> calls (subscribe_A (failing_table ''subscriptions'') example_env example_request)
            = [Insert ''subscriptions'' sub, Insert ''messages'' msg]
        \<and> status (response (subscribe_A (failing_table ''subscriptions'') example_env
                               example_request)) = 500
        \<and> persisted (failing_table ''subscriptions'')
             (calls (subscribe_A (failing_table ''subscriptions'') example_env example_request))
            = [(''messages'', msg)])
   \<and> (\<exists>sub msg.
          calls (subscribe_B (failing_table ''messages'') example_env example_request)
            = [Insert ''subscriptions'' sub, Insert ''messages'' msg]
        \<and> status (response (subscribe_B (failing_table ''messages'') example_env
                               example_request)) = 500
        \<and> persisted (failing_table ''messages'')
             (calls (subscribe_B (failing_table ''messages'') example_env example_request))
            = [(''subscriptions'', sub)])"
proof -
  have b: "status (response (subscribe_B db_ok example_env example_request)) = 200"
    by (simp add: example_subscribe_B)
  have a: "status (response (subscribe_A db_ok example_env example_request)) = 200"
    by (simp add: example_subscribe_A)
  from subscribe_inserts_not_atomic[of example_env example_request] a b
  show ?thesis by blast
qed

section \<open>The contact form\<close>

text \<open>
  The pattern is tested against the email converted to a string. An email that is not a
  string may pass: an array of \<^verbatim>\<open>"a@b"\<close> and the number \<open>15 \<times> 10\<^sup>2\<^sup>0\<close> is tested as
  \<^verbatim>\<open>a@b,1.5e+21\<close>, which matches, and the message is inserted.
\<close>

lemma contact_A_tests_the_converted_email:
  "to_string (number_text example_env) (JArr [JStr ''a@b'', JNum 1500000000000000000000])
     = Some ''a@b,1.5e+21''
   \<and> matches emailRegex ''a@b,1.5e+21''
   \<and> status (response (contact_A db_ok example_env
        [(''name'', JStr ''N''),
         (''email'', JArr [JStr ''a@b'', JNum 1500000000000000000000]),
         (''message'', JStr ''hi'')])) = 200
   \<and> length (calls (contact_A db_ok example_env
        [(''name'', JStr ''N''),
         (''email'', JArr [JStr ''a@b'', JNum 1500000000000000000000]),
         (''message'', JStr ''hi'')])) = 1"
  by code_simp

text \<open>
  C7. For a contact request whose \<^verbatim>\<open>name\<close>, \<^verbatim>\<open>email\<close> and \<^verbatim>\<open>message\<close> are all truthy
  and whose email does not match the pattern (\<open>s\<close> is the email as the test converts it
  to a string, the email itself when it is a string): \<^verbatim>\<open>index.js\<close> answers 400 and
  issues no database call; \<^verbatim>\<open>part_000\<close> issues the insert of the three fields and, when
  the database accepts it, answers 200 with \<^verbatim>\<open>{success: true}\<close>.
\<close>

theorem contact_email_pattern:
  assumes "truthy (prop_of (JObj b) ''name'')"
    and "truthy (prop_of (JObj b) ''email'')"
    and "truthy (prop_of (JObj b) ''message'')"
    and "to_string (number_text e) (prop_of (JObj b) ''email'') = Some s"
    and "\<not> matches emailRegex s"
  shows "status (response (contact_A db e b)) = 400 \<and> calls (contact_A db e b) = []
    \<and> calls (contact_B db e b) =
         [Insert ''contact_messages''
            [(''name'', prop_of (JObj b) ''name''), (''email'', prop_of (JObj b) ''email''),
             (''message'', prop_of (JObj b) ''message'')]]
    \<and> (accepted (db (Insert ''contact_messages''
            [(''name'', prop_of (JObj b) ''name''), (''email'', prop_of (JObj b) ''email''),
             (''message'', prop_of (JObj b) ''message'')])) \<longrightarrow>
         response (contact_B db e b) =
           \<lparr>status = 200, body = JObj [(''success'', JBool True)]\<rparr>)"
  using assms
  by (simp add: contact_A_def contact_B_def Let_def send_def contact_B_caught_def accepted_def
      split: db_reply.splits del: prop_of.simps)

theorem contact_email_pattern_witness:
  "truthy (prop_of (JObj contact_request) ''name'')
   \<and> truthy (prop_of (JObj contact_request) ''email'')
   \<and> truthy (prop_of (JObj contact_request) ''message'')
   \<and> to_string (number_text example_env) (prop_of (JObj contact_request) ''email'')
        = Some ''not-an-email''
   \<and> \<not> matches emailRegex ''not-an-email''
   \<and> accepted (db_ok (Insert ''contact_messages''
        [(''name'', JStr ''N''), (''email'', JStr ''not-an-email''), (''message'', JStr ''hi'')]))
   \<and> status (response (contact_A db_ok example_env contact_request)) = 400
   \<and> calls (contact_A db_ok example_env contact_request) = []
   \<and> calls (contact_B db_ok example_env contact_request) =
        [Insert ''contact_messages''
           [(''name'', JStr ''N''), (''email'', JStr ''not-an-email''), (''message'', JStr ''hi'')]]
   \<and> response (contact_B db_ok example_env contact_request) =
        \<lparr>status = 200, body = JObj [(''success'', JBool True)]\<rparr>"
proof -
  have h: "truthy (prop_of (JObj contact_request) ''name'')"
    "truthy (prop_of (JObj contact_request) ''email'')"
    "truthy (prop_of (JObj contact_request) ''message'')"
    "to_string (number_text example_env) (prop_of (JObj contact_request) ''email'')
       = Some ''not-an-email''"
    by (simp_all add: contact_request_def)
  have m: "\<not> matches emailRegex ''not-an-email''"
    by code_simp
  have p: "prop_of (JObj contact_request) ''name'' = JStr ''N''"
    "prop_of (JObj contact_request) ''email'' = JStr ''not-an-email''"
    "prop_of (JObj contact_request) ''message'' = JStr ''hi''"
    by (simp_all add: contact_request_def)
  have a: "accepted (db_ok (Insert ''contact_messages''
        [(''name'', JStr ''N''), (''email'', JStr ''not-an-email''), (''message'', JStr ''hi'')]))"
    by (simp add: accepted_def db_ok_def)
  from contact_email_pattern[OF h m, of db_ok] a h m
  show ?thesis unfolding p by blast
qed

section \<open>Database errors\<close>



section \<open>The health check\<close>

text \<open>
  C10. \<^verbatim>\<open>GET /health\<close> issues no database call and answers 200 with the status
  \<^verbatim>\<open>"OK"\<close> and the current time of the server, whatever the database client does and
  whatever the host is, in both versions.
\<close>

theorem health_always_ok:
  "response (health_A db e) =
     \<lparr>status = 200,
      body = JObj [(''status'', JStr ''OK''), (''server_time'', JStr (iso_string (clock e 0)))]\<rparr>
   \<and> calls (health_A db e) = []
   \<and> response (health_B db e) =
     \<lparr>status = 200,
      body = JObj [(''status'', JStr ''OK''), (''server_time'', JStr (iso_string (clock e 0)))]\<rparr>
   \<and> calls (health_B db e) = []"
  by (simp add: health_A_def health_B_def send_def)

end
